theory Spec2Isabelle
  imports Main "HOL-Library.Word"
begin

unbundle bit_operations_syntax

section \<open>Shared data model (EdgeMemory.h)\<close>

text \<open>
  The target is a 64-bit build: \<open>size_t\<close> and \<open>uintptr_t\<close> are 64-bit unsigned integers
  whose arithmetic wraps around, pointers are 64-bit addresses and the null pointer is
  the address 0.
\<close>

type_synonym size_t = "64 word"
type_synonym uintptr_t = "64 word"
type_synonym addr = "64 word"

text \<open>
  \<open>enum class MemoryTag : uint8_t\<close>. The enumerators are numbered from \<open>NoTag = 0\<close>
  to \<open>Temp = 25\<close>; \<open>COUNT\<close> is the 27th enumerator, so its value is 26. Every 8-bit
  value can be cast to the enumeration, so a tag is any 8-bit word.
\<close>

type_synonym MemoryTag = "8 word"

definition NoTag :: MemoryTag where
  "NoTag = 0"

definition MemoryTag_COUNT :: MemoryTag where
  "MemoryTag_COUNT = 26"

record MemoryStats =
  totalAllocated :: size_t
  totalFreed :: size_t
  currentUsage :: size_t
  peakUsage :: size_t
  allocationCount :: size_t
  freeCount :: size_t

text \<open>The result of \<open>memset(&stats, 0, sizeof(MemoryStats))\<close> and of the default constructor.\<close>

definition zero_stats :: MemoryStats where
  "zero_stats = \<lparr>totalAllocated = 0, totalFreed = 0, currentUsage = 0, peakUsage = 0,
     allocationCount = 0, freeCount = 0\<rparr>"

text \<open>\<open>Memory::AlignUp\<close>: \<open>(size + alignment - 1) & ~(alignment - 1)\<close>.\<close>

definition AlignUp :: "size_t \<Rightarrow> size_t \<Rightarrow> size_t" where
  "AlignUp sz algn = (sz + algn - 1) AND NOT (algn - 1)"

section \<open>The diagnostic facility (EdgeAssert)\<close>

datatype AssertLevel = Info | Warning | Error | Fatal

text \<open>
  What an operation does to the diagnostic facility: a failed assertion handed to
  \<open>AssertHandler::HandleAssert\<close> (with its level and message), and a call of
  \<open>DebugBreak\<close>. The events of a call are listed in program order. The functions below
  give the result and the state of a call as the source computes them when control comes
  back from \<open>DebugBreak\<close>; where the break primitive ends the process, the process ends at
  the recorded \<open>Debug_Break\<close>.
\<close>

datatype event = Assert_Failed AssertLevel string | Debug_Break

text \<open>\<open>AssertHandler::DefaultHandler\<close>: whether to break, by level and build type.\<close>

fun DefaultHandler :: "bool \<Rightarrow> AssertLevel \<Rightarrow> bool" where
  "DefaultHandler dbg Fatal = True"
| "DefaultHandler dbg Error = dbg"
| "DefaultHandler dbg Warning = False"
| "DefaultHandler dbg Info = False"

definition EDGE_ASSERT_IMPL :: "bool \<Rightarrow> bool \<Rightarrow> AssertLevel \<Rightarrow> string \<Rightarrow> event list" where
  "EDGE_ASSERT_IMPL dbg condition level message =
     (if \<not> condition
      then Assert_Failed level message # (if DefaultHandler dbg level then [Debug_Break] else [])
      else [])"

text \<open>
  \<open>EDGE_ASSERT\<close>: in a debug build (\<open>EDGE_DEBUG = 1\<close>, the first argument) an assertion at
  level \<open>Error\<close>; in a release build the macro expands to \<open>((void)0)\<close>.
\<close>

definition EDGE_ASSERT :: "bool \<Rightarrow> bool \<Rightarrow> string \<Rightarrow> event list" where
  "EDGE_ASSERT dbg condition message =
     (if dbg then EDGE_ASSERT_IMPL dbg condition Error message else [])"

section \<open>SystemAllocator\<close>

record AllocationHeader =
  hdr_size :: size_t
  hdr_alignment :: size_t
  hdr_tag :: MemoryTag
  hdr_file :: addr
  hdr_line :: "32 word"
  hdr_prev :: addr
  hdr_next :: addr
  guardValue :: "32 word"

definition GUARD_VALUE :: "32 word" where
  "GUARD_VALUE = 0xDEADC0DE"

text \<open>
  \<open>sizeof(AllocationHeader)\<close> on a 64-bit target: eight members, each of which occupies
  eight bytes once padded to the 8-byte alignment of the structure (two \<open>size_t\<close>, the
  one-byte tag, a pointer, the \<open>int\<close>, two pointers, the \<open>uint32_t\<close>).
\<close>

definition sizeof_AllocationHeader :: size_t where
  "sizeof_AllocationHeader = 64"

text \<open>
  The members of the header are prefixed with \<open>hdr_\<close> (\<open>size\<close> is a constant of HOL).
  The allocator object together with the two parts of the environment its member
  functions touch: \<open>headers\<close> is memory read as allocation headers (the header found at
  an address; memory that never held a header reads as some header value), and
  \<open>platform_live\<close> lists the blocks obtained from the platform's aligned allocation
  primitive that have not been handed back to it, most recent first.
\<close>

record SystemAllocator =
  m_Stats :: MemoryStats
  m_TagStats :: "MemoryStats list"
  m_TrackingEnabled :: bool
  m_FirstAllocation :: addr
  m_LastAllocation :: addr
  headers :: "addr \<Rightarrow> AllocationHeader"
  platform_live :: "addr list"

text \<open>The constructor, in a build with \<open>EDGE_DEBUG = dbg\<close>, over memory \<open>h\<close>.\<close>

definition SystemAllocator_new :: "bool \<Rightarrow> (addr \<Rightarrow> AllocationHeader) \<Rightarrow> SystemAllocator" where
  "SystemAllocator_new dbg h =
     \<lparr>m_Stats = zero_stats,
      m_TagStats = replicate (unat MemoryTag_COUNT) zero_stats,
      m_TrackingEnabled = dbg,
      m_FirstAllocation = 0,
      m_LastAllocation = 0,
      headers = h,
      platform_live = []\<rparr>"

text \<open>The statistics update shared by every allocation path.\<close>

definition stats_add :: "size_t \<Rightarrow> MemoryStats \<Rightarrow> MemoryStats" where
  "stats_add n st =
     (let st1 = st\<lparr>totalAllocated := totalAllocated st + n\<rparr>;
          st2 = st1\<lparr>currentUsage := currentUsage st1 + n\<rparr>;
          st3 = st2\<lparr>allocationCount := allocationCount st2 + 1\<rparr>
      in if currentUsage st3 > peakUsage st3 then st3\<lparr>peakUsage := currentUsage st3\<rparr> else st3)"

text \<open>The statistics update of a deallocation.\<close>

definition stats_sub :: "size_t \<Rightarrow> MemoryStats \<Rightarrow> MemoryStats" where
  "stats_sub n st =
     (let st1 = st\<lparr>totalFreed := totalFreed st + n\<rparr>;
          st2 = st1\<lparr>currentUsage := currentUsage st1 - n\<rparr>
      in st2\<lparr>freeCount := freeCount st2 + 1\<rparr>)"

definition TrackAllocation :: "addr \<Rightarrow> size_t \<Rightarrow> MemoryTag \<Rightarrow> SystemAllocator \<Rightarrow> SystemAllocator" where
  "TrackAllocation header sz tg s =
     (let s1 = s\<lparr>m_Stats := stats_add sz (m_Stats s)\<rparr>;
          tagIndex = (ucast tg :: size_t);
          s2 = (if tagIndex < ucast MemoryTag_COUNT
                then s1\<lparr>m_TagStats := (m_TagStats s1)
                        [unat tagIndex := stats_add sz (m_TagStats s1 ! unat tagIndex)]\<rparr>
                else s1)
      in if m_FirstAllocation s2 = 0
         then s2\<lparr>m_FirstAllocation := header, m_LastAllocation := header\<rparr>
         else
           (let h1 = (headers s2)(header := (headers s2 header)\<lparr>hdr_prev := m_LastAllocation s2\<rparr>);
                h2 = h1(m_LastAllocation s2 := (h1 (m_LastAllocation s2))\<lparr>hdr_next := header\<rparr>)
            in s2\<lparr>headers := h2, m_LastAllocation := header\<rparr>))"

definition TrackDeallocation :: "addr \<Rightarrow> SystemAllocator \<Rightarrow> SystemAllocator" where
  "TrackDeallocation header s =
     (let s1 = s\<lparr>m_Stats := stats_sub (hdr_size (headers s header)) (m_Stats s)\<rparr>;
          tagIndex = (ucast (hdr_tag (headers s1 header)) :: size_t);
          s2 = (if tagIndex < ucast MemoryTag_COUNT
                then s1\<lparr>m_TagStats := (m_TagStats s1)
                        [unat tagIndex :=
                           stats_sub (hdr_size (headers s1 header)) (m_TagStats s1 ! unat tagIndex)]\<rparr>
                else s1);
          s3 = (if hdr_prev (headers s2 header) \<noteq> 0
                then s2\<lparr>headers := (headers s2)
                        (hdr_prev (headers s2 header) :=
                           (headers s2 (hdr_prev (headers s2 header)))
                             \<lparr>hdr_next := hdr_next (headers s2 header)\<rparr>)\<rparr>
                else s2\<lparr>m_FirstAllocation := hdr_next (headers s2 header)\<rparr>)
      in if hdr_next (headers s3 header) \<noteq> 0
         then s3\<lparr>headers := (headers s3)
                 (hdr_next (headers s3 header) :=
                    (headers s3 (hdr_next (headers s3 header)))
                      \<lparr>hdr_prev := hdr_prev (headers s3 header)\<rparr>)\<rparr>
         else s3\<lparr>m_LastAllocation := hdr_prev (headers s3 header)\<rparr>)"

text \<open>
  \<open>SystemAllocator::Allocate(size, tag, alignment)\<close>. The argument \<open>memory\<close> is what the
  platform primitive (\<open>_aligned_malloc\<close> or \<open>aligned_alloc\<close>) returns for this call: the
  address of the block, or 0 when it fails. The result is the events, the returned
  pointer and the allocator after the call.
\<close>

definition sys_Allocate ::
  "bool \<Rightarrow> size_t \<Rightarrow> MemoryTag \<Rightarrow> size_t \<Rightarrow> addr \<Rightarrow> SystemAllocator
     \<Rightarrow> event list \<times> addr \<times> SystemAllocator" where
  "sys_Allocate dbg sz tg algn memory s =
     (if sz = 0 then ([], 0, s)
      else
        (let ev = EDGE_ASSERT dbg (algn > 0 \<and> algn AND (algn - 1) = 0)
                    ''Alignment must be a power of two.''
         in if memory = 0
            then (ev @ EDGE_ASSERT dbg False ''Memory allocation failed!'', 0, s)
            else
              (let s1 = s\<lparr>platform_live := memory # platform_live s\<rparr>
               in if m_TrackingEnabled s1
                  then
                    (let s2 = s1\<lparr>headers := (headers s1)
                                 (memory := \<lparr>hdr_size = sz, hdr_alignment = algn, hdr_tag = tg, hdr_file = 0,
                                    hdr_line = 0, hdr_prev = 0, hdr_next = 0,
                                    guardValue = GUARD_VALUE\<rparr>)\<rparr>
                     in (ev, memory + sizeof_AllocationHeader, TrackAllocation memory sz tg s2))
                  else (ev, memory, s1))))"

text \<open>\<open>SystemAllocator::Free(ptr)\<close>.\<close>

definition sys_Free :: "bool \<Rightarrow> addr \<Rightarrow> SystemAllocator \<Rightarrow> event list \<times> SystemAllocator" where
  "sys_Free dbg ptr s =
     (if ptr = 0 then ([], s)
      else if m_TrackingEnabled s
      then
        (let header = ptr - sizeof_AllocationHeader
         in if guardValue (headers s header) \<noteq> GUARD_VALUE
            then (EDGE_ASSERT dbg False ''Memory corruption detected!'', s)
            else
              (let s1 = TrackDeallocation header s
               in ([], s1\<lparr>platform_live := remove1 header (platform_live s1)\<rparr>)))
      else ([], s\<lparr>platform_live := remove1 ptr (platform_live s)\<rparr>))"

definition sys_GetStats :: "SystemAllocator \<Rightarrow> MemoryStats" where
  "sys_GetStats s = m_Stats s"

text \<open>\<open>SystemAllocator::GetTagStats(tag, stats)\<close>: the value written to \<open>stats\<close>.\<close>

definition GetTagStats :: "MemoryTag \<Rightarrow> SystemAllocator \<Rightarrow> MemoryStats" where
  "GetTagStats tg s =
     (let tagIndex = (ucast tg :: size_t)
      in if tagIndex < ucast MemoryTag_COUNT then m_TagStats s ! unat tagIndex
         else zero_stats)"

definition sys_Reset :: "bool \<Rightarrow> SystemAllocator \<Rightarrow> event list \<times> SystemAllocator" where
  "sys_Reset dbg s =
     (EDGE_ASSERT dbg (allocationCount (m_Stats s) = freeCount (m_Stats s))
        ''Cannot reset allocator with active allocations!'',
      s\<lparr>m_Stats := zero_stats,
        m_TagStats := replicate (unat MemoryTag_COUNT) zero_stats,
        m_FirstAllocation := 0,
        m_LastAllocation := 0\<rparr>)"

definition SetTrackingEnabled :: "bool \<Rightarrow> bool \<Rightarrow> SystemAllocator \<Rightarrow> event list \<times> SystemAllocator" where
  "SetTrackingEnabled dbg enabled s =
     (EDGE_ASSERT dbg (allocationCount (m_Stats s) = freeCount (m_Stats s))
        ''Cannot change tracking state with active allocations!'',
      s\<lparr>m_TrackingEnabled := enabled\<rparr>)"

section \<open>LinearAllocator\<close>

text \<open>
  The members of the three allocator classes share their names in the source; those of
  the linear allocator carry the suffix \<open>_L\<close> here and those of the pool allocator the
  suffix \<open>_P\<close>.
\<close>

record LinearAllocator =
  m_Buffer_L :: addr
  m_Size_L :: size_t
  m_Offset_L :: size_t
  m_Stats_L :: MemoryStats

text \<open>
  The constructor; \<open>buffer\<close> is what \<open>Memory::Allocate(size, EDGE_CACHE_LINE_SIZE)\<close>
  returned.
\<close>

definition LinearAllocator_new :: "bool \<Rightarrow> size_t \<Rightarrow> addr \<Rightarrow> event list \<times> LinearAllocator" where
  "LinearAllocator_new dbg sz buffer =
     (EDGE_ASSERT dbg (buffer \<noteq> 0) ''Failed to allocate memory for LinearAllocator'',
      \<lparr>m_Buffer_L = buffer, m_Size_L = sz, m_Offset_L = 0, m_Stats_L = zero_stats\<rparr>)"

definition lin_Allocate ::
  "bool \<Rightarrow> size_t \<Rightarrow> MemoryTag \<Rightarrow> size_t \<Rightarrow> LinearAllocator
     \<Rightarrow> event list \<times> addr \<times> LinearAllocator" where
  "lin_Allocate dbg sz tg algn s =
     (if sz = 0 then ([], 0, s)
      else
        (let alignmentMask = algn - 1;
             alignedOffset = (m_Offset_L s + alignmentMask) AND NOT alignmentMask
         in if alignedOffset + sz > m_Size_L s
            then (EDGE_ASSERT dbg False ''LinearAllocator out of memory'', 0, s)
            else ([], m_Buffer_L s + alignedOffset,
                  s\<lparr>m_Offset_L := alignedOffset + sz,
                    m_Stats_L := stats_add sz (m_Stats_L s)\<rparr>)))"

definition lin_Free :: "addr \<Rightarrow> LinearAllocator \<Rightarrow> LinearAllocator" where
  "lin_Free ptr s = s"

definition lin_GetStats :: "LinearAllocator \<Rightarrow> MemoryStats" where
  "lin_GetStats s = m_Stats_L s"

text \<open>The statistics update of \<open>LinearAllocator::Reset\<close> and \<open>PoolAllocator::Reset\<close>.\<close>

definition stats_fold :: "MemoryStats \<Rightarrow> MemoryStats" where
  "stats_fold st =
     (let st1 = st\<lparr>totalFreed := totalFreed st + currentUsage st\<rparr>;
          st2 = st1\<lparr>currentUsage := 0\<rparr>
      in st2\<lparr>freeCount := freeCount st2 + allocationCount st2\<rparr>)"

definition lin_Reset :: "LinearAllocator \<Rightarrow> LinearAllocator" where
  "lin_Reset s = s\<lparr>m_Offset_L := 0, m_Stats_L := stats_fold (m_Stats_L s)\<rparr>"

section \<open>PoolAllocator\<close>

text \<open>
  Memory is byte addressed. A \<open>uintptr_t\<close> stored at address \<open>a\<close> occupies the eight
  bytes \<open>a, ..., a + 7\<close>, least significant byte first.
\<close>

type_synonym memory = "addr \<Rightarrow> 8 word"

definition write64 :: "addr \<Rightarrow> uintptr_t \<Rightarrow> memory \<Rightarrow> memory" where
  "write64 a v m = (\<lambda>x. if x - a < 8 then ucast (drop_bit (8 * unat (x - a)) v) else m x)"

definition read64 :: "memory \<Rightarrow> addr \<Rightarrow> uintptr_t" where
  "read64 m a =
     ucast (m a) OR push_bit 8 (ucast (m (a + 1))) OR push_bit 16 (ucast (m (a + 2)))
       OR push_bit 24 (ucast (m (a + 3))) OR push_bit 32 (ucast (m (a + 4)))
       OR push_bit 40 (ucast (m (a + 5))) OR push_bit 48 (ucast (m (a + 6)))
       OR push_bit 56 (ucast (m (a + 7)))"

record PoolAllocator =
  m_Buffer_P :: addr
  m_FreeList :: addr
  m_ElementSize :: size_t
  m_ElementCount :: size_t
  m_AlignedElementSize :: size_t
  m_FreeCount :: size_t
  m_Stats_P :: MemoryStats
  heap_P :: memory

text \<open>
  The loop that threads the free list through the slots, in the constructor and again
  in \<open>Reset\<close>: \<open>for (size_t i = 0; i < n - 1; ++i) *(buf + i * sz) = buf + (i + 1) * sz\<close>,
  entered at index \<open>i\<close>.
\<close>

function link_blocks :: "addr \<Rightarrow> size_t \<Rightarrow> size_t \<Rightarrow> size_t \<Rightarrow> memory \<Rightarrow> memory" where
  "link_blocks buf sz n i m =
     (if i < n - 1
      then link_blocks buf sz n (i + 1) (write64 (buf + i * sz) (buf + (i + 1) * sz) m)
      else m)"
  by pat_completeness auto
termination
proof (relation "measure (\<lambda>(buf, sz, n, i, m). unat (n - 1) - unat i)")
  show "wf (measure (\<lambda>(buf, sz, n, i, m). unat (n - 1) - unat i))"
    by simp
next
  fix buf sz n i :: "64 word" and m :: memory
  assume less: "i < n - 1"
  then have "unat (n - 1) - unat (i + 1) < unat (n - 1) - unat i"
    by unat_arith
  then show "((buf, sz, n, i + 1, write64 (buf + i * sz) (buf + (i + 1) * sz) m),
      (buf, sz, n, i, m)) \<in> measure (\<lambda>(buf, sz, n, i, m). unat (n - 1) - unat i)"
    by simp
qed

text \<open>
  The constructor; \<open>buffer\<close> is what \<open>Memory::Allocate(totalSize, alignment)\<close> returned
  and \<open>m\<close> is memory before the free list is written.
\<close>

definition PoolAllocator_new ::
  "bool \<Rightarrow> size_t \<Rightarrow> size_t \<Rightarrow> size_t \<Rightarrow> addr \<Rightarrow> memory \<Rightarrow> event list \<times> PoolAllocator" where
  "PoolAllocator_new dbg elementSize elementCount algn buffer m =
     (let alignedElementSize = AlignUp elementSize algn;
          m1 = link_blocks buffer alignedElementSize elementCount 0 m;
          m2 = write64 (buffer + (elementCount - 1) * alignedElementSize) 0 m1
      in (EDGE_ASSERT dbg (buffer \<noteq> 0) ''Failed to allocate memory for PoolAllocator'',
          \<lparr>m_Buffer_P = buffer, m_FreeList = buffer, m_ElementSize = elementSize,
           m_ElementCount = elementCount, m_AlignedElementSize = alignedElementSize,
           m_FreeCount = elementCount, m_Stats_P = zero_stats, heap_P = m2\<rparr>))"

definition pool_Allocate ::
  "bool \<Rightarrow> size_t \<Rightarrow> MemoryTag \<Rightarrow> size_t \<Rightarrow> PoolAllocator
     \<Rightarrow> event list \<times> addr \<times> PoolAllocator" where
  "pool_Allocate dbg sz tg algn s =
     (if sz > m_ElementSize s
      then (EDGE_ASSERT dbg False ''Requested size is larger than pool element size'', 0, s)
      else if m_FreeList s = 0
      then (EDGE_ASSERT dbg False ''Pool allocator is out of memory'', 0, s)
      else ([], m_FreeList s,
            s\<lparr>m_FreeList := read64 (heap_P s) (m_FreeList s),
              m_FreeCount := m_FreeCount s - 1,
              m_Stats_P := stats_add (m_ElementSize s) (m_Stats_P s)\<rparr>))"

definition pool_Free :: "bool \<Rightarrow> addr \<Rightarrow> PoolAllocator \<Rightarrow> event list \<times> PoolAllocator" where
  "pool_Free dbg ptr s =
     (if ptr = 0 then ([], s)
      else if ptr < m_Buffer_P s
              \<or> ptr \<ge> m_Buffer_P s + m_AlignedElementSize s * m_ElementCount s
      then (EDGE_ASSERT dbg False ''Pointer does not belong to this pool'', s)
      else ([], s\<lparr>heap_P := write64 ptr (m_FreeList s) (heap_P s),
                  m_FreeList := ptr,
                  m_FreeCount := m_FreeCount s + 1,
                  m_Stats_P := stats_sub (m_ElementSize s) (m_Stats_P s)\<rparr>))"

definition pool_GetStats :: "PoolAllocator \<Rightarrow> MemoryStats" where
  "pool_GetStats s = m_Stats_P s"

definition pool_Reset :: "PoolAllocator \<Rightarrow> PoolAllocator" where
  "pool_Reset s =
     (let m1 = link_blocks (m_Buffer_P s) (m_AlignedElementSize s) (m_ElementCount s) 0 (heap_P s);
          m2 = write64 (m_Buffer_P s + (m_ElementCount s - 1) * m_AlignedElementSize s) 0 m1
      in s\<lparr>heap_P := m2,
           m_FreeList := m_Buffer_P s,
           m_FreeCount := m_ElementCount s,
           m_Stats_P := stats_fold (m_Stats_P s)\<rparr>)"

section \<open>Call sequences\<close>

text \<open>
  A client of an allocator issues calls one after the other. Each \<open>step\<close> function
  performs one call and gives the allocator after it; \<open>run\<close> performs a list of calls
  from left to right.
\<close>

datatype sys_call =
  Sys_Allocate size_t MemoryTag size_t addr
  | Sys_Free addr
  | Sys_Reset
  | Sys_SetTrackingEnabled bool

fun sys_step :: "bool \<Rightarrow> sys_call \<Rightarrow> SystemAllocator \<Rightarrow> SystemAllocator" where
  "sys_step dbg (Sys_Allocate sz tg algn memory) s = snd (snd (sys_Allocate dbg sz tg algn memory s))"
| "sys_step dbg (Sys_Free ptr) s = snd (sys_Free dbg ptr s)"
| "sys_step dbg Sys_Reset s = snd (sys_Reset dbg s)"
| "sys_step dbg (Sys_SetTrackingEnabled enabled) s = snd (SetTrackingEnabled dbg enabled s)"

fun sys_run :: "bool \<Rightarrow> sys_call list \<Rightarrow> SystemAllocator \<Rightarrow> SystemAllocator" where
  "sys_run dbg [] s = s"
| "sys_run dbg (c # cs) s = sys_run dbg cs (sys_step dbg c s)"

datatype lin_call =
  Lin_Allocate size_t MemoryTag size_t
  | Lin_Free addr
  | Lin_Reset

fun lin_step :: "bool \<Rightarrow> lin_call \<Rightarrow> LinearAllocator \<Rightarrow> LinearAllocator" where
  "lin_step dbg (Lin_Allocate sz tg algn) s = snd (snd (lin_Allocate dbg sz tg algn s))"
| "lin_step dbg (Lin_Free ptr) s = lin_Free ptr s"
| "lin_step dbg Lin_Reset s = lin_Reset s"

fun lin_run :: "bool \<Rightarrow> lin_call list \<Rightarrow> LinearAllocator \<Rightarrow> LinearAllocator" where
  "lin_run dbg [] s = s"
| "lin_run dbg (c # cs) s = lin_run dbg cs (lin_step dbg c s)"

text \<open>
  Besides the calls of the allocator, a client of the pool stores bytes into the memory
  it was given: \<open>Pool_Store a b\<close> stores the byte \<open>b\<close> at address \<open>a\<close>.
\<close>

datatype pool_call =
  Pool_Allocate size_t MemoryTag size_t
  | Pool_Free addr
  | Pool_Reset
  | Pool_Store addr "8 word"

fun pool_step :: "bool \<Rightarrow> pool_call \<Rightarrow> PoolAllocator \<Rightarrow> PoolAllocator" where
  "pool_step dbg (Pool_Allocate sz tg algn) s = snd (snd (pool_Allocate dbg sz tg algn s))"
| "pool_step dbg (Pool_Free ptr) s = snd (pool_Free dbg ptr s)"
| "pool_step dbg Pool_Reset s = pool_Reset s"
| "pool_step dbg (Pool_Store a b) s = s\<lparr>heap_P := (heap_P s)(a := b)\<rparr>"

fun pool_run :: "bool \<Rightarrow> pool_call list \<Rightarrow> PoolAllocator \<Rightarrow> PoolAllocator" where
  "pool_run dbg [] s = s"
| "pool_run dbg (c # cs) s = pool_run dbg cs (pool_step dbg c s)"

text \<open>The relation between the three byte counters of a statistics snapshot.\<close>

definition stats_consistent :: "MemoryStats \<Rightarrow> bool" where
  "stats_consistent st = (currentUsage st = totalAllocated st - totalFreed st)"

section \<open>Sample states\<close>

text \<open>A header whose members are all zero: memory that holds no allocation header.\<close>

definition hdr0 :: AllocationHeader where
  "hdr0 = \<lparr>hdr_size = 0, hdr_alignment = 0, hdr_tag = 0, hdr_file = 0, hdr_line = 0,
     hdr_prev = 0, hdr_next = 0, guardValue = 0\<rparr>"

section \<open>The pool's client contract and free list\<close>

text \<open>The address of slot \<open>i\<close>: \<open>m_Buffer + i * m_AlignedElementSize\<close>.\<close>

definition slot_addr :: "addr \<Rightarrow> size_t \<Rightarrow> nat \<Rightarrow> addr" where
  "slot_addr buf sz i = buf + of_nat i * sz"

definition pool_slots :: "addr \<Rightarrow> size_t \<Rightarrow> size_t \<Rightarrow> addr list" where
  "pool_slots buf sz n = map (slot_addr buf sz) [0..<unat n]"

text \<open>
  What the constructor takes for granted about its arguments and about the block the
  system allocator gave it: the block is not null, a slot can hold the \<open>uintptr_t\<close> that
  links it into the free list, there is at least one slot, and the block of
  \<open>elementCount\<close> slots lies inside the address space.
\<close>

definition pool_wf :: "addr \<Rightarrow> size_t \<Rightarrow> size_t \<Rightarrow> bool" where
  "pool_wf buf sz n = (buf \<noteq> 0 \<and> 8 \<le> sz \<and> 0 < n \<and> unat buf + unat n * unat sz < 2 ^ 64)"

text \<open>
  \<open>free_chain m p xs\<close>: following the link words in memory \<open>m\<close> from the head \<open>p\<close> visits
  exactly the addresses \<open>xs\<close> and then reaches the null pointer.
\<close>

fun free_chain :: "memory \<Rightarrow> addr \<Rightarrow> addr list \<Rightarrow> bool" where
  "free_chain m p [] = (p = 0)"
| "free_chain m p (x # xs) = (p = x \<and> x \<noteq> 0 \<and> free_chain m (read64 m x) xs)"

text \<open>
  A client that keeps the contract: \<open>pool_exec\<close> performs the calls and keeps the list
  \<open>live\<close> of the pointers handed out and not yet given back. It is \<open>None\<close> as soon as the
  client frees a pointer that is neither null nor live, or stores outside the
  \<open>m_ElementSize\<close> bytes of a live pointer. \<open>Reset\<close> ends the life of every pointer.
\<close>

fun pool_exec ::
  "bool \<Rightarrow> pool_call list \<Rightarrow> PoolAllocator \<Rightarrow> addr list \<Rightarrow> (PoolAllocator \<times> addr list) option" where
  "pool_exec dbg [] s live = Some (s, live)"
| "pool_exec dbg (Pool_Allocate sz tg algn # cs) s live =
     (let p = fst (snd (pool_Allocate dbg sz tg algn s))
      in pool_exec dbg cs (pool_step dbg (Pool_Allocate sz tg algn) s)
           (if p = 0 then live else p # live))"
| "pool_exec dbg (Pool_Free ptr # cs) s live =
     (if ptr = 0 then pool_exec dbg cs (pool_step dbg (Pool_Free ptr) s) live
      else if ptr \<in> set live
      then pool_exec dbg cs (pool_step dbg (Pool_Free ptr) s) (remove1 ptr live)
      else None)"
| "pool_exec dbg (Pool_Reset # cs) s live = pool_exec dbg cs (pool_step dbg Pool_Reset s) []"
| "pool_exec dbg (Pool_Store a b # cs) s live =
     (if list_ex (\<lambda>q. a - q < m_ElementSize s) live
      then pool_exec dbg cs (pool_step dbg (Pool_Store a b) s) live
      else None)"

text \<open>
  The invariant of the pool under such a client: the free list \<open>fl\<close> is threaded through
  memory from \<open>m_FreeList\<close>, the free and the live addresses are the slots of the pool,
  each once, and \<open>m_FreeCount\<close> is the length of the free list.
\<close>

definition pool_inv :: "PoolAllocator \<Rightarrow> addr list \<Rightarrow> addr list \<Rightarrow> bool" where
  "pool_inv s fl live =
     (pool_wf (m_Buffer_P s) (m_AlignedElementSize s) (m_ElementCount s)
      \<and> m_ElementSize s \<le> m_AlignedElementSize s
      \<and> free_chain (heap_P s) (m_FreeList s) fl
      \<and> distinct (fl @ live)
      \<and> set (fl @ live) = set (pool_slots (m_Buffer_P s) (m_AlignedElementSize s) (m_ElementCount s))
      \<and> m_FreeCount s = of_nat (length fl))"

section \<open>Statistics\<close>

lemma stats_consistent_zero: "stats_consistent zero_stats"
  by (simp add: stats_consistent_def zero_stats_def)

lemma stats_consistent_add: "stats_consistent st \<Longrightarrow> stats_consistent (stats_add n st)"
  by (simp add: stats_consistent_def stats_add_def Let_def)

lemma stats_consistent_sub: "stats_consistent st \<Longrightarrow> stats_consistent (stats_sub n st)"
  by (simp add: stats_consistent_def stats_sub_def Let_def)

lemma stats_consistent_fold: "stats_consistent st \<Longrightarrow> stats_consistent (stats_fold st)"
  by (simp add: stats_consistent_def stats_fold_def Let_def)

lemma m_Stats_TrackAllocation: "m_Stats (TrackAllocation header sz tg s) = stats_add sz (m_Stats s)"
  by (simp add: TrackAllocation_def Let_def)

lemma m_Stats_TrackDeallocation:
  "m_Stats (TrackDeallocation header s) = stats_sub (hdr_size (headers s header)) (m_Stats s)"
  by (simp add: TrackDeallocation_def Let_def)

lemma sys_step_consistent:
  "stats_consistent (m_Stats s) \<Longrightarrow> stats_consistent (m_Stats (sys_step dbg c s))"
proof (cases c)
  case (Sys_Allocate sz tg algn memory)
  then show "stats_consistent (m_Stats s) \<Longrightarrow> ?thesis"
    by (simp add: sys_Allocate_def Let_def m_Stats_TrackAllocation stats_consistent_add)
next
  case (Sys_Free ptr)
  then show "stats_consistent (m_Stats s) \<Longrightarrow> ?thesis"
    by (simp add: sys_Free_def Let_def m_Stats_TrackDeallocation stats_consistent_sub)
next
  case Sys_Reset
  then show ?thesis
    by (simp add: sys_Reset_def stats_consistent_zero)
next
  case (Sys_SetTrackingEnabled enabled)
  then show "stats_consistent (m_Stats s) \<Longrightarrow> ?thesis"
    by (simp add: SetTrackingEnabled_def)
qed

lemma sys_run_consistent:
  "stats_consistent (m_Stats s) \<Longrightarrow> stats_consistent (m_Stats (sys_run dbg cs s))"
  by (induction cs arbitrary: s) (simp_all add: sys_step_consistent)

lemma lin_step_consistent:
  "stats_consistent (m_Stats_L s) \<Longrightarrow> stats_consistent (m_Stats_L (lin_step dbg c s))"
  by (cases c)
    (simp_all add: lin_Allocate_def lin_Free_def lin_Reset_def Let_def stats_consistent_add
      stats_consistent_fold)

lemma lin_run_consistent:
  "stats_consistent (m_Stats_L s) \<Longrightarrow> stats_consistent (m_Stats_L (lin_run dbg cs s))"
  by (induction cs arbitrary: s) (simp_all add: lin_step_consistent)

lemma pool_step_consistent:
  "stats_consistent (m_Stats_P s) \<Longrightarrow> stats_consistent (m_Stats_P (pool_step dbg c s))"
  by (cases c)
    (simp_all add: pool_Allocate_def pool_Free_def pool_Reset_def Let_def stats_consistent_add
      stats_consistent_sub stats_consistent_fold)

lemma pool_run_consistent:
  "stats_consistent (m_Stats_P s) \<Longrightarrow> stats_consistent (m_Stats_P (pool_run dbg cs s))"
  by (induction cs arbitrary: s) (simp_all add: pool_step_consistent)

text \<open>
  Claim C1. For each of the three allocators, start from the freshly constructed
  allocator and perform any list of calls (allocations that succeed or fail, frees,
  resets, and for the system allocator changes of the tracking switch). After every
  call, that is after the first \<open>k\<close> calls for every \<open>k\<close>, the statistics snapshot
  satisfies \<open>currentUsage = totalAllocated - totalFreed\<close> in \<open>size_t\<close> arithmetic.
  A list may contain \<open>Reset\<close>, so the calls that follow a reset are covered as well.
\<close>

theorem stats_consistent_after_every_call:
  "stats_consistent (sys_GetStats (sys_run dbg (take k cs) (SystemAllocator_new dbg h)))
   \<and> stats_consistent
        (lin_GetStats (lin_run dbg (take k ls) (snd (LinearAllocator_new dbg bufferSize buffer))))
   \<and> stats_consistent
        (pool_GetStats (pool_run dbg (take k ps)
           (snd (PoolAllocator_new dbg elementSize elementCount algn buffer' m))))"
proof (intro conjI)
  show "stats_consistent (sys_GetStats (sys_run dbg (take k cs) (SystemAllocator_new dbg h)))"
    unfolding sys_GetStats_def
    by (rule sys_run_consistent) (simp add: SystemAllocator_new_def stats_consistent_zero)
  show "stats_consistent
     (lin_GetStats (lin_run dbg (take k ls) (snd (LinearAllocator_new dbg bufferSize buffer))))"
    unfolding lin_GetStats_def
    by (rule lin_run_consistent) (simp add: LinearAllocator_new_def stats_consistent_zero)
  show "stats_consistent
     (pool_GetStats (pool_run dbg (take k ps)
        (snd (PoolAllocator_new dbg elementSize elementCount algn buffer' m))))"
    unfolding pool_GetStats_def
    by (rule pool_run_consistent)
      (simp add: PoolAllocator_new_def Let_def stats_consistent_zero)
qed

section \<open>Byte memory\<close>

lemma octet_cases:
  assumes "n < (64::nat)"
  obtains "n < 8" | "8 \<le> n" "n < 16" | "16 \<le> n" "n < 24" | "24 \<le> n" "n < 32"
    | "32 \<le> n" "n < 40" | "40 \<le> n" "n < 48" | "48 \<le> n" "n < 56" | "56 \<le> n" "n < 64"
  using assms by linarith

lemma read64_write64_same: "read64 (write64 a v m) a = v"
proof (rule bit_word_eqI)
  fix n :: nat
  assume "n < LENGTH(64)"
  then have n: "n < 64" by simp
  then show "bit (read64 (write64 a v m) a) n = bit v n"
    by (cases rule: octet_cases) (simp_all add: read64_def write64_def bit_simps less_diff_conv2)
qed

section \<open>Per-tag statistics\<close>

lemma length_TagStats_TrackAllocation:
  "length (m_TagStats (TrackAllocation header sz tg s)) = length (m_TagStats s)"
  by (simp add: TrackAllocation_def Let_def)

lemma length_TagStats_TrackDeallocation:
  "length (m_TagStats (TrackDeallocation header s)) = length (m_TagStats s)"
  by (simp add: TrackDeallocation_def Let_def)

lemma length_TagStats_step:
  "length (m_TagStats s) = unat MemoryTag_COUNT \<Longrightarrow>
   length (m_TagStats (sys_step dbg c s)) = unat MemoryTag_COUNT"
  by (cases c)
    (simp_all add: sys_Allocate_def sys_Free_def sys_Reset_def SetTrackingEnabled_def Let_def
      length_TagStats_TrackAllocation length_TagStats_TrackDeallocation)

lemma length_TagStats_run:
  "length (m_TagStats s) = unat MemoryTag_COUNT \<Longrightarrow>
   length (m_TagStats (sys_run dbg cs s)) = unat MemoryTag_COUNT"
  by (induction cs arbitrary: s) (simp_all add: length_TagStats_step)

lemma unat_ucast_tag: "unat (ucast (tg :: MemoryTag) :: size_t) = unat tg"
proof -
  have "unat tg < 2 ^ 8"
    using unsigned_less [of tg] by simp
  then have "unat tg < 2 ^ 64"
    by simp
  then show ?thesis
    by (simp add: unsigned_ucast_eq take_bit_nat_eq_self)
qed

lemma tag_index_less:
  "(ucast (tg :: MemoryTag) :: size_t) < ucast (c :: MemoryTag) \<longleftrightarrow> unat tg < unat c"
  by (simp add: word_less_nat_alt unat_ucast_tag)

text \<open>
  Claim C10. On a system allocator reached from its constructor by any list of calls,
  \<open>GetTagStats\<close> with a tag whose index is at least \<open>MemoryTag::COUNT\<close> writes the
  all-zero statistics; with a tag below \<open>COUNT\<close> the index lies inside the array
  \<open>m_TagStats\<close> and the statistics written are the array element of that tag.
\<close>

theorem GetTagStats_total:
  "(unat MemoryTag_COUNT \<le> unat tg \<longrightarrow>
      GetTagStats tg (sys_run dbg cs (SystemAllocator_new dbg h)) = zero_stats)
   \<and> (unat tg < unat MemoryTag_COUNT \<longrightarrow>
        unat tg < length (m_TagStats (sys_run dbg cs (SystemAllocator_new dbg h)))
        \<and> GetTagStats tg (sys_run dbg cs (SystemAllocator_new dbg h))
            = m_TagStats (sys_run dbg cs (SystemAllocator_new dbg h)) ! unat tg)"
proof -
  have "length (m_TagStats (sys_run dbg cs (SystemAllocator_new dbg h))) = unat MemoryTag_COUNT"
    by (rule length_TagStats_run) (simp add: SystemAllocator_new_def)
  then show ?thesis
    unfolding GetTagStats_def Let_def tag_index_less
    by (simp add: unat_ucast_tag)
qed

theorem GetTagStats_total_witness:
  "GetTagStats 200 (sys_run True [Sys_Allocate 16 3 8 4096] (SystemAllocator_new True (\<lambda>a. hdr0)))
     = zero_stats
   \<and> GetTagStats 3 (sys_run True [Sys_Allocate 16 3 8 4096] (SystemAllocator_new True (\<lambda>a. hdr0)))
     = \<lparr>totalAllocated = 16, totalFreed = 0, currentUsage = 16, peakUsage = 16,
         allocationCount = 1, freeCount = 0\<rparr>"
  using GetTagStats_total [of 200 True "[Sys_Allocate 16 3 8 4096]" "\<lambda>a. hdr0"]
    GetTagStats_total [of 3 True "[Sys_Allocate 16 3 8 4096]" "\<lambda>a. hdr0"]
  by (simp add: sys_Allocate_def SystemAllocator_new_def TrackAllocation_def Let_def
      EDGE_ASSERT_def EDGE_ASSERT_IMPL_def MemoryTag_COUNT_def stats_add_def zero_stats_def)

section \<open>Guard value, reset and zero-size requests\<close>

lemma EDGE_ASSERT_False:
  "EDGE_ASSERT dbg False msg = (if dbg then [Assert_Failed Error msg, Debug_Break] else [])"
  by (simp add: EDGE_ASSERT_def EDGE_ASSERT_IMPL_def)

lemma EDGE_ASSERT_True: "EDGE_ASSERT dbg True msg = []"
  by (simp add: EDGE_ASSERT_def EDGE_ASSERT_IMPL_def)

text \<open>
  Claim C5. With tracking enabled, \<open>Free\<close> of a non-null pointer whose recovered header
  (at \<open>ptr - sizeof(AllocationHeader)\<close>) holds a guard value other than the sentinel
  leaves the whole state as it was: the statistics, the per-tag statistics, the ends of
  the tracking list, the headers in memory and the blocks held from the platform. In a
  debug build the corruption is reported and a break requested; in a release build
  nothing is reported.
\<close>

theorem sys_Free_guard_mismatch:
  assumes "m_TrackingEnabled s"
    and "ptr \<noteq> 0"
    and "guardValue (headers s (ptr - sizeof_AllocationHeader)) \<noteq> GUARD_VALUE"
  shows "snd (sys_Free dbg ptr s) = s
    \<and> fst (sys_Free dbg ptr s)
        = (if dbg then [Assert_Failed Error ''Memory corruption detected!'', Debug_Break] else [])"
  using assms by (simp add: sys_Free_def Let_def EDGE_ASSERT_False)

theorem sys_Free_guard_mismatch_witness:
  "snd (sys_Free True 4160 (SystemAllocator_new True (\<lambda>a. hdr0)))
     = SystemAllocator_new True (\<lambda>a. hdr0)
   \<and> fst (sys_Free True 4160 (SystemAllocator_new True (\<lambda>a. hdr0)))
     = [Assert_Failed Error ''Memory corruption detected!'', Debug_Break]"
  using sys_Free_guard_mismatch [of "SystemAllocator_new True (\<lambda>a. hdr0)" 4160 True]
  by (simp add: SystemAllocator_new_def hdr0_def GUARD_VALUE_def)




lemma sys_Allocate_zero_size: "sys_Allocate dbg 0 tg algn memory s = ([], 0, s)"
  by (simp add: sys_Allocate_def)

lemma lin_Allocate_zero_size: "lin_Allocate dbg 0 tg algn s = ([], 0, s)"
  by (simp add: lin_Allocate_def)

text \<open>
  Claim C3 holds for the system allocator and the linear allocator (the two lemmas
  above) and fails for the pool allocator, whose \<open>Allocate\<close> has no test for a zero
  size: on a fresh pool of four 32-byte elements at address 4096, a request for zero
  bytes returns the first slot, takes it off the free list and counts 32 bytes as
  allocated.
\<close>

theorem pool_Allocate_zero_size:
  "fst (snd (pool_Allocate dbg 0 NoTag 8 (snd (PoolAllocator_new dbg 32 4 8 4096 m)))) = 4096
   \<and> m_FreeCount (snd (snd (pool_Allocate dbg 0 NoTag 8
        (snd (PoolAllocator_new dbg 32 4 8 4096 m))))) = 3
   \<and> totalAllocated (pool_GetStats (snd (snd (pool_Allocate dbg 0 NoTag 8
        (snd (PoolAllocator_new dbg 32 4 8 4096 m)))))) = 32
   \<and> allocationCount (pool_GetStats (snd (snd (pool_Allocate dbg 0 NoTag 8
        (snd (PoolAllocator_new dbg 32 4 8 4096 m)))))) = 1
   \<and> pool_GetStats (snd (PoolAllocator_new dbg 32 4 8 4096 m)) = zero_stats"
  by (simp add: pool_GetStats_def PoolAllocator_new_def pool_Allocate_def Let_def
      stats_add_def zero_stats_def)

section \<open>The linear allocator's bound\<close>

text \<open>
  When the sum computed by the source, \<open>alignedOffset + size\<close> in \<open>size_t\<close> arithmetic,
  exceeds \<open>m_Size\<close>, the request fails and nothing changes.
\<close>

lemma lin_Allocate_out_of_memory:
  assumes "sz \<noteq> 0"
    and "m_Size_L s < ((m_Offset_L s + (algn - 1)) AND NOT (algn - 1)) + sz"
  shows "lin_Allocate dbg sz tg algn s
    = (if dbg then [Assert_Failed Error ''LinearAllocator out of memory'', Debug_Break] else [],
       0, s)"
  using assms by (simp add: lin_Allocate_def Let_def EDGE_ASSERT_False)

text \<open>
  The scenario of the specification: a linear allocator of size 100 whose buffer is at
  address 4096. A request for 60 bytes is served at offset 0; a request for 50 bytes
  then fails and leaves the allocator as it was; a request for 40 bytes with alignment
  1 is served at offset 60, and with alignment 16 it fails.
\<close>

lemma lin_scenario:
  "lin_Allocate False 60 NoTag 1 (snd (LinearAllocator_new False 100 4096))
     = ([], 4096, lin_run False [Lin_Allocate 60 NoTag 1] (snd (LinearAllocator_new False 100 4096)))
   \<and> m_Offset_L (lin_run False [Lin_Allocate 60 NoTag 1]
        (snd (LinearAllocator_new False 100 4096))) = 60
   \<and> lin_Allocate False 50 NoTag 1
        (lin_run False [Lin_Allocate 60 NoTag 1] (snd (LinearAllocator_new False 100 4096)))
     = ([], 0, lin_run False [Lin_Allocate 60 NoTag 1] (snd (LinearAllocator_new False 100 4096)))
   \<and> fst (snd (lin_Allocate False 40 NoTag 1
        (lin_run False [Lin_Allocate 60 NoTag 1] (snd (LinearAllocator_new False 100 4096)))))
     = 4096 + 60
   \<and> fst (snd (lin_Allocate False 40 NoTag 16
        (lin_run False [Lin_Allocate 60 NoTag 1] (snd (LinearAllocator_new False 100 4096)))))
     = 0"
  by (simp add: LinearAllocator_new_def lin_Allocate_def Let_def EDGE_ASSERT_def)

text \<open>
  Claim C6 fails where the sum wraps around. Size 100, buffer at 4096, offset 60 after
  a first request. A request for \<open>2^64 - 32\<close> bytes with alignment 16 has aligned
  offset 64, and 64 plus the size exceeds 100; the source computes the sum modulo
  \<open>2^64\<close>, which is 32, so the request is served at offset 64 and the offset becomes 32.
\<close>

theorem lin_Allocate_sum_wraps:
  "m_Offset_L (lin_run dbg [Lin_Allocate 60 NoTag 16] (snd (LinearAllocator_new dbg 100 4096)))
     = 60
   \<and> 100 < unat (64 :: size_t) + unat (0xFFFFFFFFFFFFFFE0 :: size_t)
   \<and> lin_Allocate dbg 0xFFFFFFFFFFFFFFE0 NoTag 16
        (lin_run dbg [Lin_Allocate 60 NoTag 16] (snd (LinearAllocator_new dbg 100 4096)))
     = ([], 4160,
        (lin_run dbg [Lin_Allocate 60 NoTag 16] (snd (LinearAllocator_new dbg 100 4096)))
          \<lparr>m_Offset_L := 32,
           m_Stats_L := stats_add 0xFFFFFFFFFFFFFFE0
             (m_Stats_L (lin_run dbg [Lin_Allocate 60 NoTag 16]
                (snd (LinearAllocator_new dbg 100 4096))))\<rparr>)"
  by (simp add: LinearAllocator_new_def lin_Allocate_def Let_def)

section \<open>Reuse of a freed slot\<close>

text \<open>
  Claim C8. \<open>Free\<close> of a non-null pointer inside the pool's range, followed at once by
  an \<open>Allocate\<close> of a size that fits, returns the pointer just freed. Neither call
  reports anything, and after the two calls the head of the free list and the free
  count are what they were before them: \<open>Free\<close> pushed the slot on the head of the
  list and \<open>Allocate\<close> popped it.
\<close>

theorem pool_Free_then_Allocate:
  assumes "ptr \<noteq> 0"
    and "m_Buffer_P s \<le> ptr"
    and "ptr < m_Buffer_P s + m_AlignedElementSize s * m_ElementCount s"
    and "sz \<le> m_ElementSize s"
  shows "fst (pool_Free dbg ptr s) = []
    \<and> m_FreeList (snd (pool_Free dbg ptr s)) = ptr
    \<and> read64 (heap_P (snd (pool_Free dbg ptr s))) ptr = m_FreeList s
    \<and> fst (pool_Allocate dbg sz tg algn (snd (pool_Free dbg ptr s))) = []
    \<and> fst (snd (pool_Allocate dbg sz tg algn (snd (pool_Free dbg ptr s)))) = ptr
    \<and> m_FreeList (snd (snd (pool_Allocate dbg sz tg algn (snd (pool_Free dbg ptr s)))))
        = m_FreeList s
    \<and> m_FreeCount (snd (snd (pool_Allocate dbg sz tg algn (snd (pool_Free dbg ptr s)))))
        = m_FreeCount s"
  using assms
  by (simp add: pool_Free_def pool_Allocate_def Let_def not_less [symmetric]
      read64_write64_same)

theorem pool_Free_then_Allocate_witness:
  "fst (snd (pool_Allocate False 32 NoTag 8
      (snd (pool_Free False 4096
         (pool_run False [Pool_Allocate 32 NoTag 8]
            (snd (PoolAllocator_new False 32 4 8 4096 (\<lambda>a. 0)))))))) = 4096
   \<and> m_FreeCount (snd (snd (pool_Allocate False 32 NoTag 8
      (snd (pool_Free False 4096
         (pool_run False [Pool_Allocate 32 NoTag 8]
            (snd (PoolAllocator_new False 32 4 8 4096 (\<lambda>a. 0))))))))) = 3"
  using pool_Free_then_Allocate
    [of 4096 "pool_run False [Pool_Allocate 32 NoTag 8]
        (snd (PoolAllocator_new False 32 4 8 4096 (\<lambda>a. 0)))" 32 False NoTag 8]
  by (simp add: PoolAllocator_new_def pool_Allocate_def AlignUp_def Let_def)

section \<open>Slots of a well-formed pool\<close>

lemma slot_end_le:
  assumes "i < unat n"
  shows "i * unat sz + unat sz \<le> unat n * unat sz"
proof -
  from assms have "Suc i \<le> unat n"
    by simp
  then have "Suc i * unat sz \<le> unat n * unat sz"
    by (rule mult_le_mono1)
  then show ?thesis
    by simp
qed

lemma slot_step_le:
  assumes "i < j"
  shows "i * z + z \<le> j * (z :: nat)"
proof -
  from assms have "Suc i \<le> j"
    by simp
  then have "Suc i * z \<le> j * z"
    by (rule mult_le_mono1)
  then show ?thesis
    by simp
qed

lemma unat_of_nat_small: "m < 2 ^ 64 \<Longrightarrow> unat (of_nat m :: 64 word) = m"
  by (simp add: unat_of_nat)

lemma unat_slot_offset:
  assumes wf: "pool_wf buf sz n" and i: "i < unat n" and k: "k < unat sz"
  shows "unat (slot_addr buf sz i + of_nat k) = unat buf + i * unat sz + k"
proof -
  from wf have bound: "unat buf + unat n * unat sz < 2 ^ 64"
    by (simp add: pool_wf_def)
  from slot_end_le [OF i, of sz] bound k
  have lt: "unat buf + i * unat sz + k < 2 ^ 64"
    by linarith
  have e: "(of_nat (unat buf + i * unat sz + k) :: 64 word) = slot_addr buf sz i + of_nat k"
    by (simp add: slot_addr_def)
  from unat_of_nat_small [OF lt] show ?thesis
    unfolding e .
qed

lemma unat_slot:
  assumes "pool_wf buf sz n" and "i < unat n"
  shows "unat (slot_addr buf sz i) = unat buf + i * unat sz"
proof -
  from assms(1) have "0 < unat sz"
    by (simp add: pool_wf_def word_le_nat_alt)
  from unat_slot_offset [OF assms this] show ?thesis
    by simp
qed

lemma slot_apart:
  assumes wf: "pool_wf buf sz n" and i: "i < unat n" and j: "j < unat n" and ne: "i \<noteq> j"
    and k: "k < unat sz"
  shows "8 \<le> slot_addr buf sz i + of_nat k - slot_addr buf sz j"
proof -
  from wf have bound: "unat buf + unat n * unat sz < 2 ^ 64" and z: "8 \<le> unat sz"
    by (simp_all add: pool_wf_def word_le_nat_alt)
  note x = unat_slot_offset [OF wf i k] and y = unat_slot [OF wf j]
  note ei = slot_end_le [OF i, of sz] and ej = slot_end_le [OF j, of sz]
  show ?thesis
  proof (cases "i < j")
    case True
    from slot_step_le [OF True, of "unat sz"] k
    have "\<not> unat buf + j * unat sz \<le> unat buf + i * unat sz + k"
      by linarith
    then have "unat (slot_addr buf sz i + of_nat k - slot_addr buf sz j)
        = unat buf + i * unat sz + k + 2 ^ 64 - (unat buf + j * unat sz)"
      by (simp add: unat_sub_if_size x y word_size)
    with ej bound z show ?thesis
      by (simp add: word_le_nat_alt)
  next
    case False
    with ne have "j < i"
      by simp
    from slot_step_le [OF this, of "unat sz"]
    have le: "unat buf + j * unat sz \<le> unat buf + i * unat sz + k"
      by linarith
    then have "unat (slot_addr buf sz i + of_nat k - slot_addr buf sz j)
        = unat buf + i * unat sz + k - (unat buf + j * unat sz)"
      by (simp add: unat_sub_if_size x y word_size)
    with slot_step_le [OF \<open>j < i\<close>, of "unat sz"] z show ?thesis
      by (simp add: word_le_nat_alt)
  qed
qed

lemma slot_nonzero:
  assumes "pool_wf buf sz n" and "i < unat n"
  shows "slot_addr buf sz i \<noteq> 0"
proof -
  from assms(1) have "0 < unat buf"
    by (simp add: pool_wf_def unat_gt_0)
  with unat_slot [OF assms] have "0 < unat (slot_addr buf sz i)"
    by simp
  then show ?thesis
    by (simp add: unat_gt_0)
qed

lemma slot_in_range:
  assumes wf: "pool_wf buf sz n" and i: "i < unat n"
  shows "buf \<le> slot_addr buf sz i \<and> slot_addr buf sz i < buf + sz * n"
proof -
  from wf have bound: "unat buf + unat n * unat sz < 2 ^ 64" and z: "8 \<le> unat sz"
    by (simp_all add: pool_wf_def word_le_nat_alt)
  have "(of_nat (unat buf + unat n * unat sz) :: 64 word) = buf + sz * n"
    by (simp add: mult.commute)
  with unat_of_nat_small [OF bound] have e: "unat (buf + sz * n) = unat buf + unat n * unat sz"
    by (simp only:)
  from slot_end_le [OF i, of sz] z i show ?thesis
    by (simp add: word_le_nat_alt word_less_nat_alt e unat_slot [OF wf i])
qed

lemma slot_distinct:
  assumes "pool_wf buf sz n" and "i < unat n" and "j < unat n" and "i \<noteq> j"
  shows "slot_addr buf sz i \<noteq> slot_addr buf sz j"
proof
  assume "slot_addr buf sz i = slot_addr buf sz j"
  moreover from assms(1) have "0 < unat sz"
    by (simp add: pool_wf_def word_le_nat_alt)
  from slot_apart [OF assms this] have "8 \<le> slot_addr buf sz i - slot_addr buf sz j"
    by simp
  ultimately show False
    by simp
qed

lemma distinct_pool_slots: "pool_wf buf sz n \<Longrightarrow> distinct (pool_slots buf sz n)"
  by (auto simp: pool_slots_def distinct_map inj_on_def dest: slot_distinct)

lemma length_pool_slots: "length (pool_slots buf sz n) = unat n"
  by (simp add: pool_slots_def)

lemma in_pool_slots: "x \<in> set (pool_slots buf sz n) \<longleftrightarrow> (\<exists>i < unat n. x = slot_addr buf sz i)"
  by (auto simp: pool_slots_def)

section \<open>Stores and loads of link words\<close>

declare link_blocks.simps [simp del]

lemma read64_frame:
  assumes "\<And>k. k < 8 \<Longrightarrow> m1 (a + of_nat k) = m2 (a + of_nat k)"
  shows "read64 m1 a = read64 m2 a"
  using assms [of 0] assms [of 1] assms [of 2] assms [of 3] assms [of 4] assms [of 5]
    assms [of 6] assms [of 7]
  by (simp add: read64_def)

lemma write64_outside: "8 \<le> x - a \<Longrightarrow> write64 a v m x = m x"
  by (simp add: write64_def not_less [symmetric])

lemma write64_agree: "m1 x = m2 x \<or> x - a < 8 \<Longrightarrow> write64 a v m1 x = write64 a v m2 x"
  by (auto simp: write64_def)

lemma unat_pred: "0 < (n :: 64 word) \<Longrightarrow> unat (n - 1) = unat n - 1"
  by unat_arith

lemma unat_succ: "(i :: 64 word) < n - 1 \<Longrightarrow> unat (i + 1) = Suc (unat i)"
  by unat_arith

lemma loop_slot: "buf + i * sz = slot_addr buf sz (unat i)"
  by (simp add: slot_addr_def)

lemma loop_store:
  "write64 (buf + i * sz) (buf + (i + 1) * sz) m
     = write64 (slot_addr buf sz (unat i)) (slot_addr buf sz (Suc (unat i))) m"
  by (simp add: slot_addr_def add.commute)

lemma link_blocks_outside:
  "(\<And>j. unat i \<le> j \<Longrightarrow> j < unat (n - 1) \<Longrightarrow> 8 \<le> x - slot_addr buf sz j)
   \<Longrightarrow> link_blocks buf sz n i m x = m x"
proof (induction buf sz n i m rule: link_blocks.induct)
  case (1 buf sz n i m)
  show ?case
  proof (cases "i < n - 1")
    case True
    then have lt: "unat i < unat (n - 1)"
      by (simp add: word_less_nat_alt)
    have "link_blocks buf sz n (i + 1) (write64 (buf + i * sz) (buf + (i + 1) * sz) m) x
        = write64 (buf + i * sz) (buf + (i + 1) * sz) m x"
    proof (rule "1.IH" [OF True])
      fix j
      assume "unat (i + 1) \<le> j" and "j < unat (n - 1)"
      with True show "8 \<le> x - slot_addr buf sz j"
        by (intro "1.prems") (simp_all add: unat_succ)
    qed
    also have "\<dots> = m x"
      unfolding loop_slot by (rule write64_outside) (rule "1.prems" [OF le_refl lt])
    finally show ?thesis
      using True by (subst link_blocks.simps) simp
  next
    case False
    then show ?thesis
      by (subst link_blocks.simps) simp
  qed
qed

lemma link_blocks_read:
  "pool_wf buf sz n \<Longrightarrow> unat i \<le> j \<Longrightarrow> j < unat (n - 1)
   \<Longrightarrow> read64 (link_blocks buf sz n i m) (slot_addr buf sz j) = slot_addr buf sz (Suc j)"
proof (induction buf sz n i m rule: link_blocks.induct)
  case (1 buf sz n i m)
  note wf = \<open>pool_wf buf sz n\<close>
  from wf have n: "0 < n" and z: "8 \<le> unat sz"
    by (simp_all add: pool_wf_def word_le_nat_alt)
  from "1.prems" have lt: "unat i < unat (n - 1)"
    by simp
  then have less: "i < n - 1"
    by (simp add: word_less_nat_alt)
  from \<open>j < unat (n - 1)\<close> n have jn: "j < unat n"
    by (simp add: unat_pred)
  let ?m' = "write64 (buf + i * sz) (buf + (i + 1) * sz) m"
  have unfold: "link_blocks buf sz n i m = link_blocks buf sz n (i + 1) ?m'"
    using less by (subst link_blocks.simps) simp
  show ?case
  proof (cases "unat i = j")
    case True
    have "read64 (link_blocks buf sz n (i + 1) ?m') (slot_addr buf sz j)
        = read64 ?m' (slot_addr buf sz j)"
    proof (rule read64_frame)
      fix k :: nat
      assume k: "k < 8"
      show "link_blocks buf sz n (i + 1) ?m' (slot_addr buf sz j + of_nat k)
          = ?m' (slot_addr buf sz j + of_nat k)"
      proof (rule link_blocks_outside)
        fix j'
        assume "unat (i + 1) \<le> j'" and j': "j' < unat (n - 1)"
        with less True have "j \<noteq> j'"
          by (simp add: unat_succ)
        moreover from j' n have "j' < unat n"
          by (simp add: unat_pred)
        moreover from k z have "k < unat sz"
          by simp
        ultimately show "8 \<le> slot_addr buf sz j + of_nat k - slot_addr buf sz j'"
          using wf jn by (intro slot_apart)
      qed
    qed
    also have "\<dots> = slot_addr buf sz (Suc j)"
      unfolding loop_store True by (rule read64_write64_same)
    finally show ?thesis
      unfolding unfold .
  next
    case False
    with \<open>unat i \<le> j\<close> less have "unat (i + 1) \<le> j"
      by (simp add: unat_succ)
    from "1.IH" [OF less wf this \<open>j < unat (n - 1)\<close>] show ?thesis
      unfolding unfold .
  qed
qed

text \<open>Memory after the loop and the store of the null link into the last slot.\<close>

lemma built_read_next:
  assumes wf: "pool_wf buf sz n" and j: "j < unat n - 1"
  shows "read64 (write64 (buf + (n - 1) * sz) 0 (link_blocks buf sz n 0 m)) (slot_addr buf sz j)
    = slot_addr buf sz (Suc j)"
proof -
  from wf have n: "0 < n" and z: "8 \<le> unat sz"
    by (simp_all add: pool_wf_def word_le_nat_alt)
  have last: "buf + (n - 1) * sz = slot_addr buf sz (unat n - 1)"
    using n by (simp add: loop_slot unat_pred)
  from n have pos: "0 < unat n"
    by (simp add: unat_gt_0)
  have "read64 (write64 (buf + (n - 1) * sz) 0 (link_blocks buf sz n 0 m)) (slot_addr buf sz j)
      = read64 (link_blocks buf sz n 0 m) (slot_addr buf sz j)"
  proof (rule read64_frame)
    fix k :: nat
    assume "k < 8"
    with z have k: "k < unat sz"
      by simp
    from j have jn: "j < unat n" and ne: "j \<noteq> unat n - 1"
      by simp_all
    from pos have "unat n - 1 < unat n"
      by simp
    from slot_apart [OF wf jn this ne k]
    have "8 \<le> slot_addr buf sz j + of_nat k - slot_addr buf sz (unat n - 1)" .
    then show "write64 (buf + (n - 1) * sz) 0 (link_blocks buf sz n 0 m)
          (slot_addr buf sz j + of_nat k)
        = link_blocks buf sz n 0 m (slot_addr buf sz j + of_nat k)"
      unfolding last by (rule write64_outside)
  qed
  also have "\<dots> = slot_addr buf sz (Suc j)"
    using wf j n by (intro link_blocks_read) (simp_all add: unat_pred)
  finally show ?thesis .
qed

lemma built_read_last:
  assumes "0 < n"
  shows "read64 (write64 (buf + (n - 1) * sz) 0 m) (slot_addr buf sz (unat n - 1)) = 0"
proof -
  have "buf + (n - 1) * sz = slot_addr buf sz (unat n - 1)"
    using assms by (simp add: loop_slot unat_pred)
  then show ?thesis
    by (simp add: read64_write64_same)
qed

section \<open>The free list as a chain\<close>

lemma free_chain_frame:
  "free_chain m p xs
   \<Longrightarrow> (\<And>x k. x \<in> set xs \<Longrightarrow> k < 8 \<Longrightarrow> m' (x + of_nat k) = m (x + of_nat k))
   \<Longrightarrow> free_chain m' p xs"
proof (induction xs arbitrary: p)
  case Nil
  then show ?case
    by simp
next
  case (Cons x xs)
  have "read64 m' x = read64 m x"
    by (rule read64_frame) (simp add: Cons.prems(2))
  with Cons show ?case
    by simp
qed

lemma free_chain_upt:
  assumes nxt: "\<And>j. j < N - 1 \<Longrightarrow> read64 m (f j) = f (Suc j)"
    and last: "read64 m (f (N - 1)) = 0"
    and nz: "\<And>j. j < N \<Longrightarrow> f j \<noteq> 0"
  shows "i < N \<Longrightarrow> free_chain m (f i) (map f [i..<N])"
proof (induction "N - i" arbitrary: i)
  case 0
  then show ?case
    by simp
next
  case (Suc d)
  from Suc.prems have split: "[i..<N] = i # [Suc i..<N]"
    by (simp add: upt_conv_Cons)
  show ?case
  proof (cases "Suc i < N")
    case True
    with Suc.hyps have "free_chain m (f (Suc i)) (map f [Suc i..<N])"
      by (intro Suc.hyps(1)) simp_all
    moreover from True have "read64 m (f i) = f (Suc i)"
      by (intro nxt) simp
    ultimately show ?thesis
      using nz [OF Suc.prems] by (simp add: split)
  next
    case False
    with Suc.prems have "i = N - 1" and empty: "[Suc i..<N] = []"
      by simp_all
    with last have "read64 m (f i) = 0"
      by simp
    with nz [OF Suc.prems] show ?thesis
      by (simp add: split empty)
  qed
qed

lemma free_chain_head: "free_chain m p xs \<Longrightarrow> (p = 0 \<longleftrightarrow> xs = [])"
  by (cases xs) auto

lemma built_chain:
  assumes wf: "pool_wf buf sz n"
  shows "free_chain (write64 (buf + (n - 1) * sz) 0 (link_blocks buf sz n 0 m)) buf
    (pool_slots buf sz n)"
proof -
  from wf have n: "0 < n"
    by (simp add: pool_wf_def)
  then have pos: "0 < unat n"
    by (simp add: unat_gt_0)
  let ?m = "write64 (buf + (n - 1) * sz) 0 (link_blocks buf sz n 0 m)"
  have "free_chain ?m (slot_addr buf sz 0) (map (slot_addr buf sz) [0..<unat n])"
  proof (rule free_chain_upt)
    show "read64 ?m (slot_addr buf sz j) = slot_addr buf sz (Suc j)" if "j < unat n - 1" for j
      using wf that by (rule built_read_next)
    show "read64 ?m (slot_addr buf sz (unat n - 1)) = 0"
      using n by (rule built_read_last)
    show "slot_addr buf sz j \<noteq> 0" if "j < unat n" for j
      using wf that by (rule slot_nonzero)
    show "0 < unat n"
      by (rule pos)
  qed
  then show ?thesis
    by (simp add: pool_slots_def slot_addr_def)
qed

section \<open>The pool invariant\<close>

lemma pool_inv_count:
  assumes "pool_inv s fl live"
  shows "length fl + length live = unat (m_ElementCount s)"
proof -
  let ?slots = "pool_slots (m_Buffer_P s) (m_AlignedElementSize s) (m_ElementCount s)"
  from assms have d: "distinct (fl @ live)" and e: "set (fl @ live) = set ?slots"
    and wf: "pool_wf (m_Buffer_P s) (m_AlignedElementSize s) (m_ElementCount s)"
    by (simp_all add: pool_inv_def)
  have "length (fl @ live) = card (set (fl @ live))"
    using d by (rule distinct_card [symmetric])
  also have "\<dots> = card (set ?slots)"
    by (simp only: e)
  also have "\<dots> = length ?slots"
    using distinct_pool_slots [OF wf] by (rule distinct_card)
  finally show ?thesis
    by (simp add: length_pool_slots)
qed

lemma pool_inv_head:
  assumes "pool_inv s fl live"
  shows "m_FreeList s = 0 \<longleftrightarrow> fl = []"
proof -
  from assms have "free_chain (heap_P s) (m_FreeList s) fl"
    by (simp add: pool_inv_def)
  then show ?thesis
    by (rule free_chain_head)
qed

lemma pool_inv_new:
  assumes "pool_wf buffer (AlignUp elementSize algn) elementCount"
    and "elementSize \<le> AlignUp elementSize algn"
  shows "pool_inv (snd (PoolAllocator_new dbg elementSize elementCount algn buffer m))
    (pool_slots buffer (AlignUp elementSize algn) elementCount) []"
  using assms
  by (simp add: pool_inv_def PoolAllocator_new_def Let_def built_chain distinct_pool_slots
      length_pool_slots)

lemma pool_inv_Reset:
  assumes "pool_inv s fl live"
  shows "pool_inv (pool_Reset s)
    (pool_slots (m_Buffer_P s) (m_AlignedElementSize s) (m_ElementCount s)) []"
  using assms
  by (simp add: pool_inv_def pool_Reset_def Let_def built_chain distinct_pool_slots
      length_pool_slots)

lemma pool_Allocate_too_large:
  "m_ElementSize s < sz \<Longrightarrow>
   pool_Allocate dbg sz tg algn s
     = (if dbg
        then [Assert_Failed Error ''Requested size is larger than pool element size'',
              Debug_Break]
        else [], 0, s)"
  by (simp add: pool_Allocate_def EDGE_ASSERT_False)

lemma pool_Allocate_exhausted:
  "sz \<le> m_ElementSize s \<Longrightarrow> m_FreeList s = 0 \<Longrightarrow>
   pool_Allocate dbg sz tg algn s
     = (if dbg then [Assert_Failed Error ''Pool allocator is out of memory'', Debug_Break]
        else [], 0, s)"
  by (simp add: pool_Allocate_def EDGE_ASSERT_False not_less [symmetric])

lemma pool_Allocate_pop:
  "sz \<le> m_ElementSize s \<Longrightarrow> m_FreeList s \<noteq> 0 \<Longrightarrow>
   pool_Allocate dbg sz tg algn s
     = ([], m_FreeList s,
        s\<lparr>m_FreeList := read64 (heap_P s) (m_FreeList s),
          m_FreeCount := m_FreeCount s - 1,
          m_Stats_P := stats_add (m_ElementSize s) (m_Stats_P s)\<rparr>)"
  by (simp add: pool_Allocate_def not_less [symmetric])

lemma pool_inv_Allocate:
  assumes inv: "pool_inv s (x # xs) live" and fits: "sz \<le> m_ElementSize s"
  shows "fst (snd (pool_Allocate dbg sz tg algn s)) = x
    \<and> pool_inv (snd (snd (pool_Allocate dbg sz tg algn s))) xs (x # live)"
proof -
  from inv have head: "m_FreeList s = x" and nz: "x \<noteq> 0"
    by (simp_all add: pool_inv_def)
  with inv show ?thesis
    by (simp add: pool_Allocate_pop [OF fits] pool_inv_def)
qed

lemma pool_inv_Free:
  assumes inv: "pool_inv s fl live" and p: "p \<in> set live"
  shows "fst (pool_Free dbg p s) = []
    \<and> pool_inv (snd (pool_Free dbg p s)) (p # fl) (remove1 p live)"
proof -
  let ?buf = "m_Buffer_P s" and ?sz = "m_AlignedElementSize s" and ?n = "m_ElementCount s"
  from inv have wf: "pool_wf ?buf ?sz ?n"
    and chain: "free_chain (heap_P s) (m_FreeList s) fl"
    and d: "distinct (fl @ live)"
    and e: "set (fl @ live) = set (pool_slots ?buf ?sz ?n)"
    and c: "m_FreeCount s = of_nat (length fl)"
    and es: "m_ElementSize s \<le> ?sz"
    by (simp_all add: pool_inv_def)
  from wf have z: "8 \<le> unat ?sz"
    by (simp add: pool_wf_def word_le_nat_alt)
  from p have "p \<in> set (fl @ live)"
    by simp
  then have "p \<in> set (pool_slots ?buf ?sz ?n)"
    unfolding e .
  then obtain i where i: "i < unat ?n" and pi: "p = slot_addr ?buf ?sz i"
    unfolding in_pool_slots by blast
  from slot_nonzero [OF wf i] pi have nz: "p \<noteq> 0"
    by simp
  from slot_in_range [OF wf i] pi have range: "?buf \<le> p" "p < ?buf + ?sz * ?n"
    by simp_all
  have result: "pool_Free dbg p s
      = ([], s\<lparr>heap_P := write64 p (m_FreeList s) (heap_P s), m_FreeList := p,
                m_FreeCount := m_FreeCount s + 1,
                m_Stats_P := stats_sub (m_ElementSize s) (m_Stats_P s)\<rparr>)"
    using nz range by (simp add: pool_Free_def not_less [symmetric])
  have frame: "free_chain (write64 p (m_FreeList s) (heap_P s)) (m_FreeList s) fl"
    using chain
  proof (rule free_chain_frame)
    fix x and k :: nat
    assume x: "x \<in> set fl" and k: "k < 8"
    then have "x \<in> set (fl @ live)"
      by simp
    then have "x \<in> set (pool_slots ?buf ?sz ?n)"
      unfolding e .
    then obtain j where j: "j < unat ?n" and xj: "x = slot_addr ?buf ?sz j"
      unfolding in_pool_slots by blast
    from x p d have "x \<noteq> p"
      by auto
    with pi xj have ne: "j \<noteq> i"
      by auto
    from k z have "k < unat ?sz"
      by simp
    from slot_apart [OF wf j i ne this] have "8 \<le> x + of_nat k - p"
      by (simp add: pi xj)
    then show "write64 p (m_FreeList s) (heap_P s) (x + of_nat k) = heap_P s (x + of_nat k)"
      by (rule write64_outside)
  qed
  have sets: "set ((p # fl) @ remove1 p live) = set (fl @ live)"
    using p d by auto
  have dist: "distinct ((p # fl) @ remove1 p live)"
    using p d by auto
  from wf es frame nz c dist show ?thesis
    unfolding result
    by (simp add: pool_inv_def read64_write64_same sets [simplified] e [simplified])
qed

lemma pool_inv_Store:
  assumes inv: "pool_inv s fl live" and ok: "list_ex (\<lambda>q. a - q < m_ElementSize s) live"
  shows "pool_inv (s\<lparr>heap_P := (heap_P s)(a := b)\<rparr>) fl live"
proof -
  let ?buf = "m_Buffer_P s" and ?sz = "m_AlignedElementSize s" and ?n = "m_ElementCount s"
  from inv have wf: "pool_wf ?buf ?sz ?n"
    and chain: "free_chain (heap_P s) (m_FreeList s) fl"
    and d: "distinct (fl @ live)"
    and e: "set (fl @ live) = set (pool_slots ?buf ?sz ?n)"
    and es: "m_ElementSize s \<le> ?sz"
    by (simp_all add: pool_inv_def)
  from ok obtain q where q: "q \<in> set live" and near: "a - q < m_ElementSize s"
    by (auto simp: list_ex_iff)
  from q have "q \<in> set (fl @ live)"
    by simp
  then have "q \<in> set (pool_slots ?buf ?sz ?n)"
    unfolding e .
  then obtain i where i: "i < unat ?n" and qi: "q = slot_addr ?buf ?sz i"
    unfolding in_pool_slots by blast
  from near es have off: "unat (a - q) < unat ?sz"
    by (simp add: word_less_nat_alt word_le_nat_alt)
  have a: "a = q + of_nat (unat (a - q))"
    by simp
  have "free_chain ((heap_P s)(a := b)) (m_FreeList s) fl"
    using chain
  proof (rule free_chain_frame)
    fix x and k :: nat
    assume x: "x \<in> set fl" and k: "k < 8"
    then have "x \<in> set (fl @ live)"
      by simp
    then have "x \<in> set (pool_slots ?buf ?sz ?n)"
      unfolding e .
    then obtain j where j: "j < unat ?n" and xj: "x = slot_addr ?buf ?sz j"
      unfolding in_pool_slots by blast
    from x q d have "x \<noteq> q"
      by auto
    with qi xj have ne: "i \<noteq> j"
      by auto
    from slot_apart [OF wf i j ne off] have far: "8 \<le> a - x"
      unfolding qi [symmetric] xj [symmetric] a [symmetric] .
    have "a \<noteq> x + of_nat k"
    proof
      assume "a = x + of_nat k"
      then have "a - x = of_nat k"
        by simp
      with far have "(8 :: 64 word) \<le> of_nat k"
        by simp
      then have "8 \<le> unat (of_nat k :: 64 word)"
        by (simp add: word_le_nat_alt)
      with k show False
        by (simp add: unat_of_nat)
    qed
    then show "((heap_P s)(a := b)) (x + of_nat k) = heap_P s (x + of_nat k)"
      by simp
  qed
  with inv show ?thesis
    by (simp add: pool_inv_def)
qed

lemma pool_inv_exec:
  "pool_inv s fl live \<Longrightarrow> pool_exec dbg cs s live = Some (s', live')
   \<Longrightarrow> \<exists>fl'. pool_inv s' fl' live'"
proof (induction cs arbitrary: s fl live)
  case Nil
  then show ?case
    by auto
next
  case (Cons c cs)
  show ?case
  proof (cases c)
    case (Pool_Allocate sz tg algn)
    show ?thesis
    proof (cases "m_ElementSize s < sz \<or> fl = []")
      case True
      have "snd (pool_Allocate dbg sz tg algn s) = (0, s)"
      proof (cases "m_ElementSize s < sz")
        case True
        then show ?thesis
          by (simp add: pool_Allocate_too_large)
      next
        case False
        with \<open>m_ElementSize s < sz \<or> fl = []\<close> have "fl = []"
          by simp
        with pool_inv_head [OF Cons.prems(1)] have "m_FreeList s = 0"
          by simp
        with False show ?thesis
          by (simp add: pool_Allocate_exhausted not_less)
      qed
      with Cons.prems Pool_Allocate have "pool_exec dbg cs s live = Some (s', live')"
        by simp
      with Cons.prems(1) show ?thesis
        by (rule Cons.IH)
    next
      case False
      then obtain x xs where fl: "fl = x # xs" and fits: "sz \<le> m_ElementSize s"
        by (cases fl) (auto simp: not_less)
      from Cons.prems(1) have nz: "x \<noteq> 0"
        by (simp add: fl pool_inv_def)
      from pool_inv_Allocate [OF Cons.prems(1) [unfolded fl] fits, of dbg tg algn]
      have r: "fst (snd (pool_Allocate dbg sz tg algn s)) = x"
        and inv': "pool_inv (snd (snd (pool_Allocate dbg sz tg algn s))) xs (x # live)"
        by simp_all
      from Cons.prems(2) Pool_Allocate r nz
      have "pool_exec dbg cs (snd (snd (pool_Allocate dbg sz tg algn s))) (x # live)
          = Some (s', live')"
        by simp
      with inv' show ?thesis
        by (rule Cons.IH)
    qed
  next
    case (Pool_Free p)
    show ?thesis
    proof (cases "p = 0")
      case True
      with Cons.prems Pool_Free have "pool_exec dbg cs s live = Some (s', live')"
        by (simp add: pool_Free_def)
      with Cons.prems(1) show ?thesis
        by (rule Cons.IH)
    next
      case False
      with Cons.prems(2) Pool_Free have p: "p \<in> set live"
        and run: "pool_exec dbg cs (snd (pool_Free dbg p s)) (remove1 p live) = Some (s', live')"
        by (simp_all split: if_splits)
      from pool_inv_Free [OF Cons.prems(1) p, of dbg]
      have "pool_inv (snd (pool_Free dbg p s)) (p # fl) (remove1 p live)"
        by simp
      then show ?thesis
        using run by (rule Cons.IH)
    qed
  next
    case Pool_Reset
    with Cons.prems(2) have "pool_exec dbg cs (pool_Reset s) [] = Some (s', live')"
      by simp
    with pool_inv_Reset [OF Cons.prems(1)] show ?thesis
      by (rule Cons.IH)
  next
    case (Pool_Store a b)
    with Cons.prems(2) have ok: "list_ex (\<lambda>q. a - q < m_ElementSize s) live"
      and run: "pool_exec dbg cs (s\<lparr>heap_P := (heap_P s)(a := b)\<rparr>) live = Some (s', live')"
      by (simp_all split: if_splits)
    from pool_inv_Store [OF Cons.prems(1) ok] show ?thesis
      using run by (rule Cons.IH)
  qed
qed

lemma pool_step_params:
  "m_Buffer_P (pool_step dbg c s) = m_Buffer_P s
   \<and> m_ElementSize (pool_step dbg c s) = m_ElementSize s
   \<and> m_ElementCount (pool_step dbg c s) = m_ElementCount s
   \<and> m_AlignedElementSize (pool_step dbg c s) = m_AlignedElementSize s"
  by (cases c) (simp_all add: pool_Allocate_def pool_Free_def pool_Reset_def Let_def)

lemma pool_run_params:
  "m_Buffer_P (pool_run dbg cs s) = m_Buffer_P s
   \<and> m_ElementSize (pool_run dbg cs s) = m_ElementSize s
   \<and> m_ElementCount (pool_run dbg cs s) = m_ElementCount s
   \<and> m_AlignedElementSize (pool_run dbg cs s) = m_AlignedElementSize s"
  by (induction cs arbitrary: s) (simp_all add: pool_step_params)

lemma pool_exec_run:
  "pool_exec dbg cs s live = Some (s', live') \<Longrightarrow> s' = pool_run dbg cs s"
  by (induction dbg cs s live rule: pool_exec.induct) (simp_all add: Let_def split: if_splits)

section \<open>Alignment\<close>

lemma mod_pow2_eq_take_bit: "(p :: 64 word) mod 2 ^ k = take_bit k p"
  by (simp add: take_bit_eq_mod)


lemma aligned_iff_dvd: "(p :: 64 word) mod 2 ^ k = 0 \<longleftrightarrow> 2 ^ k dvd p"
  unfolding mod_pow2_eq_take_bit by (rule take_bit_eq_0_iff)

lemma aligned_add:
  "(p :: 64 word) mod 2 ^ k = 0 \<Longrightarrow> q mod 2 ^ k = 0 \<Longrightarrow> (p + q) mod 2 ^ k = 0"
  unfolding aligned_iff_dvd by (rule dvd_add)


lemma aligned_64:
  assumes "k \<le> 6"
  shows "(64 :: 64 word) mod 2 ^ k = 0"
proof -
  from assms have "k = 0 \<or> k = 1 \<or> k = 2 \<or> k = 3 \<or> k = 4 \<or> k = 5 \<or> k = 6"
    by linarith
  then show ?thesis
    by (elim disjE) simp_all
qed


lemma and_split: "((y :: 64 word) AND m) + (y AND NOT m) = y"
proof -
  have "((y AND m) AND (y AND NOT m)) + ((y AND m) OR (y AND NOT m)) = (y AND m) + (y AND NOT m)"
    by (rule word_plus_and_or)
  moreover have "(y AND m) AND (y AND NOT m) = 0"
    by (rule bit_word_eqI) (auto simp: bit_simps)
  moreover have "(y AND m) OR (y AND NOT m) = y"
    by (rule bit_word_eqI) (auto simp: bit_simps)
  ultimately show ?thesis
    by simp
qed

text \<open>
  Rounding up does not go below its argument unless \<open>size + (alignment - 1)\<close> wraps
  around.
\<close>

lemma AlignUp_ge:
  assumes "unat x + unat (a - 1) < 2 ^ 64"
  shows "x \<le> AlignUp x a"
proof -
  define y where "y = x + (a - 1)"
  define t where "t = y AND (a - 1)"
  define r where "r = y AND NOT (a - 1)"
  have split: "t + r = y"
    unfolding t_def r_def by (rule and_split)
  have "t \<le> a - 1"
    unfolding t_def by (rule word_and_le1)
  then have t: "unat t \<le> unat (a - 1)"
    by (simp add: word_le_nat_alt)
  have "r \<le> y"
    unfolding r_def by (rule word_and_le2)
  then have r: "unat r \<le> unat y"
    by (simp add: word_le_nat_alt)
  have y: "unat y = unat x + unat (a - 1)"
    unfolding y_def using assms unat_plus_if' [of x "a - 1"] by simp
  have tl: "unat t < 2 ^ 64"
    using unsigned_less [of t, where 'a = nat] by simp
  have "unat y = (if unat t + unat r < 2 ^ 64 then unat t + unat r
      else unat t + unat r - 2 ^ 64)"
    using unat_plus_if' [of t r] by (simp add: split)
  with r tl have "unat y = unat t + unat r"
    by (simp split: if_splits)
  with t y have "unat x \<le> unat r"
    by linarith
  then have "x \<le> r"
    by (simp add: word_le_nat_alt)
  moreover have "AlignUp x a = r"
    by (simp add: AlignUp_def r_def y_def add_diff_eq)
  ultimately show ?thesis
    by simp
qed


section \<open>Alignment of returned pointers\<close>



lemma sys_Allocate_result:
  "fst (snd (sys_Allocate dbg sz tg algn memory s))
     = (if sz = 0 \<or> memory = 0 then 0
        else if m_TrackingEnabled s then memory + sizeof_AllocationHeader
        else memory)"
  by (simp add: sys_Allocate_def Let_def)

lemma lin_Allocate_result:
  "fst (snd (lin_Allocate dbg sz tg algn l)) = 0
   \<or> fst (snd (lin_Allocate dbg sz tg algn l))
       = m_Buffer_L l + ((m_Offset_L l + (algn - 1)) AND NOT (algn - 1))"
  by (simp add: lin_Allocate_def Let_def)


lemma pool_inv_head_slot:
  assumes "pool_inv s fl live" and "m_FreeList s \<noteq> 0"
  shows "m_FreeList s \<in> set (pool_slots (m_Buffer_P s) (m_AlignedElementSize s) (m_ElementCount s))
    \<and> m_FreeList s \<notin> set live"
proof -
  from assms obtain x xs where fl: "fl = x # xs"
    by (cases fl) (simp_all add: pool_inv_head)
  with assms(1) have "m_FreeList s = x"
    by (simp add: pool_inv_def)
  moreover from assms(1) have "distinct (fl @ live)"
    and "set (fl @ live)
      = set (pool_slots (m_Buffer_P s) (m_AlignedElementSize s) (m_ElementCount s))"
    by (simp_all add: pool_inv_def)
  ultimately show ?thesis
    unfolding fl by auto
qed

lemma pool_inv_fresh_exec:
  assumes "pool_wf buffer (AlignUp elementSize algn0) elementCount"
    and "elementSize \<le> AlignUp elementSize algn0"
    and "pool_exec dbg cs (snd (PoolAllocator_new dbg elementSize elementCount algn0 buffer m)) []
      = Some (s, live)"
  shows "\<exists>fl. pool_inv s fl live"
    and "m_Buffer_P s = buffer"
    and "m_ElementSize s = elementSize"
    and "m_ElementCount s = elementCount"
    and "m_AlignedElementSize s = AlignUp elementSize algn0"
proof -
  from pool_inv_new [OF assms(1,2)] assms(3) show "\<exists>fl. pool_inv s fl live"
    by (rule pool_inv_exec)
  from pool_exec_run [OF assms(3)]
  have s: "s = pool_run dbg cs (snd (PoolAllocator_new dbg elementSize elementCount algn0 buffer m))" .
  show "m_Buffer_P s = buffer" and "m_ElementSize s = elementSize"
    and "m_ElementCount s = elementCount"
    and "m_AlignedElementSize s = AlignUp elementSize algn0"
    unfolding s by (simp_all add: pool_run_params PoolAllocator_new_def Let_def)
qed

lemma sys_Allocate_header_aligned:
  "memory mod 2 ^ k = 0 \<Longrightarrow> k \<le> 6
   \<Longrightarrow> fst (snd (sys_Allocate dbg sz tg (2 ^ k) memory s)) mod 2 ^ k = 0"
  by (simp add: sys_Allocate_result sizeof_AllocationHeader_def aligned_add aligned_64)





lemma sample_pool_reads:
  "read64 (heap_P (snd (PoolAllocator_new dbg 32 4 8 4096 m))) 4096 = 4128
   \<and> read64 (heap_P (snd (PoolAllocator_new dbg 32 4 8 4096 m))) 4128 = 4160
   \<and> read64 (heap_P (snd (PoolAllocator_new dbg 32 4 8 4096 m))) 4160 = 4192
   \<and> read64 (heap_P (snd (PoolAllocator_new dbg 32 4 8 4096 m))) 4192 = 0"
proof -
  have wf: "pool_wf 4096 32 4"
    by (simp add: pool_wf_def)
  have heap: "heap_P (snd (PoolAllocator_new dbg 32 4 8 4096 m))
      = write64 (4096 + (4 - 1) * 32) 0 (link_blocks 4096 32 4 0 m)"
    by (simp add: PoolAllocator_new_def AlignUp_def Let_def)
  from built_read_next [OF wf, of 0 m] built_read_next [OF wf, of 1 m]
    built_read_next [OF wf, of 2 m] built_read_last [of 4 4096 32 "link_blocks 4096 32 4 0 m"]
  show ?thesis
    unfolding heap by (simp add: slot_addr_def)
qed



section \<open>The pool's allocation contract\<close>

text \<open>
  Take a pool whose constructor arguments are well formed (\<open>pool_wf\<close>, and
  the element size does not exceed the aligned element size) and a client that keeps
  the contract (\<open>pool_exec\<close> is not \<open>None\<close>), and let \<open>live\<close> be the pointers the client
  holds. Then \<open>Allocate\<close> returns null without changing the pool when the size exceeds
  the element size, and when \<open>elementCount\<close> pointers are live (the free list is then
  empty, and only then); otherwise it returns the head of the free list, makes the
  head's link word the new head, decrements the free count and updates the statistics
  by the element size, not by the requested size. The pointer returned is a slot of
  the pool that is not live; the live pointers are distinct slots, and the free count
  is \<open>elementCount\<close> less the number of live pointers.
\<close>

lemma pool_Allocate_contract:
  assumes wf: "pool_wf buffer (AlignUp elementSize algn0) elementCount"
    and fit: "elementSize \<le> AlignUp elementSize algn0"
    and run: "pool_exec dbg cs
        (snd (PoolAllocator_new dbg elementSize elementCount algn0 buffer m)) []
      = Some (s, live)"
  shows "(elementSize < sz \<longrightarrow>
        pool_Allocate dbg sz tg algn s
          = (if dbg
             then [Assert_Failed Error ''Requested size is larger than pool element size'',
                   Debug_Break]
             else [], 0, s))
    \<and> (sz \<le> elementSize \<and> length live = unat elementCount \<longrightarrow>
        pool_Allocate dbg sz tg algn s
          = (if dbg then [Assert_Failed Error ''Pool allocator is out of memory'', Debug_Break]
             else [], 0, s))
    \<and> (sz \<le> elementSize \<and> length live \<noteq> unat elementCount \<longrightarrow>
        pool_Allocate dbg sz tg algn s
          = ([], m_FreeList s,
             s\<lparr>m_FreeList := read64 (heap_P s) (m_FreeList s),
               m_FreeCount := m_FreeCount s - 1,
               m_Stats_P := stats_add elementSize (m_Stats_P s)\<rparr>)
        \<and> m_FreeList s \<noteq> 0
        \<and> m_FreeList s \<notin> set live
        \<and> m_FreeList s \<in> set (pool_slots buffer (AlignUp elementSize algn0) elementCount))
    \<and> distinct live
    \<and> set live \<subseteq> set (pool_slots buffer (AlignUp elementSize algn0) elementCount)
    \<and> length live \<le> unat elementCount
    \<and> unat (m_FreeCount s) = unat elementCount - length live"
proof -
  note fresh = pool_inv_fresh_exec [OF wf fit run]
  from fresh(1) obtain fl where inv: "pool_inv s fl live" ..
  note params = fresh(2-5)
  from pool_inv_count [OF inv] have count: "length fl + length live = unat elementCount"
    by (simp add: params)
  from pool_inv_head [OF inv] count
  have empty: "m_FreeList s = 0 \<longleftrightarrow> length live = unat elementCount"
    by auto
  have large: "pool_Allocate dbg sz tg algn s
      = (if dbg
         then [Assert_Failed Error ''Requested size is larger than pool element size'',
               Debug_Break]
         else [], 0, s)" if "elementSize < sz"
    using that by (simp add: pool_Allocate_too_large params)
  have exhausted: "pool_Allocate dbg sz tg algn s
      = (if dbg then [Assert_Failed Error ''Pool allocator is out of memory'', Debug_Break]
         else [], 0, s)" if "sz \<le> elementSize" and "length live = unat elementCount"
    using that empty by (simp add: pool_Allocate_exhausted params)
  have pop: "pool_Allocate dbg sz tg algn s
        = ([], m_FreeList s,
           s\<lparr>m_FreeList := read64 (heap_P s) (m_FreeList s),
             m_FreeCount := m_FreeCount s - 1,
             m_Stats_P := stats_add elementSize (m_Stats_P s)\<rparr>)
      \<and> m_FreeList s \<noteq> 0
      \<and> m_FreeList s \<notin> set live
      \<and> m_FreeList s \<in> set (pool_slots buffer (AlignUp elementSize algn0) elementCount)"
    if "sz \<le> elementSize" and "length live \<noteq> unat elementCount"
  proof -
    from that empty have nz: "m_FreeList s \<noteq> 0"
      by simp
    from that(1) have "sz \<le> m_ElementSize s"
      by (simp add: params)
    from pool_Allocate_pop [OF this nz] pool_inv_head_slot [OF inv nz] nz show ?thesis
      by (simp add: params)
  qed
  from inv have "distinct (fl @ live)"
    and "set (fl @ live) = set (pool_slots buffer (AlignUp elementSize algn0) elementCount)"
    by (simp_all add: pool_inv_def params)
  then have live: "distinct live"
    "set live \<subseteq> set (pool_slots buffer (AlignUp elementSize algn0) elementCount)"
    by auto
  from count have le: "length live \<le> unat elementCount"
    by simp
  have "length fl < 2 ^ 64"
    using count unsigned_less [of elementCount, where 'a = nat] by simp
  then have "unat (of_nat (length fl) :: 64 word) = length fl"
    by (rule unat_of_nat_small)
  moreover from inv have "m_FreeCount s = of_nat (length fl)"
    by (simp add: pool_inv_def)
  ultimately have free: "unat (m_FreeCount s) = unat elementCount - length live"
    using count by simp
  from large exhausted pop live le free show ?thesis
    by blast
qed

text \<open>
  The counters after a successful \<open>Allocate\<close>: the byte counters grow by the element
  size, whatever size was requested, and the allocation count by one.
\<close>

lemma pool_Allocate_counts:
  assumes "sz \<le> m_ElementSize s" and "m_FreeList s \<noteq> 0"
  shows "totalAllocated (m_Stats_P (snd (snd (pool_Allocate dbg sz tg algn s))))
      = totalAllocated (m_Stats_P s) + m_ElementSize s
    \<and> currentUsage (m_Stats_P (snd (snd (pool_Allocate dbg sz tg algn s))))
      = currentUsage (m_Stats_P s) + m_ElementSize s
    \<and> allocationCount (m_Stats_P (snd (snd (pool_Allocate dbg sz tg algn s))))
      = allocationCount (m_Stats_P s) + 1
    \<and> totalFreed (m_Stats_P (snd (snd (pool_Allocate dbg sz tg algn s))))
      = totalFreed (m_Stats_P s)
    \<and> freeCount (m_Stats_P (snd (snd (pool_Allocate dbg sz tg algn s))))
      = freeCount (m_Stats_P s)
    \<and> m_FreeCount (snd (snd (pool_Allocate dbg sz tg algn s))) = m_FreeCount s - 1"
  by (simp add: pool_Allocate_pop [OF assms] stats_add_def Let_def)

text \<open>
  The scenario of the specification: a pool of four 32-byte elements at address 4096.
  Four requests are served with four different slots, 32 bytes apart, and the fifth
  returns null.
\<close>

lemma pool_scenario:
  "pool_exec False
      [Pool_Allocate 32 NoTag 8, Pool_Allocate 32 NoTag 8, Pool_Allocate 32 NoTag 8,
       Pool_Allocate 32 NoTag 8]
      (snd (PoolAllocator_new False 32 4 8 4096 (\<lambda>a. 0))) []
     = Some (pool_run False
         [Pool_Allocate 32 NoTag 8, Pool_Allocate 32 NoTag 8, Pool_Allocate 32 NoTag 8,
          Pool_Allocate 32 NoTag 8]
         (snd (PoolAllocator_new False 32 4 8 4096 (\<lambda>a. 0))), [4192, 4160, 4128, 4096])
   \<and> pool_Allocate False 32 NoTag 8
        (pool_run False
          [Pool_Allocate 32 NoTag 8, Pool_Allocate 32 NoTag 8, Pool_Allocate 32 NoTag 8,
           Pool_Allocate 32 NoTag 8]
          (snd (PoolAllocator_new False 32 4 8 4096 (\<lambda>a. 0))))
     = ([], 0,
        pool_run False
          [Pool_Allocate 32 NoTag 8, Pool_Allocate 32 NoTag 8, Pool_Allocate 32 NoTag 8,
           Pool_Allocate 32 NoTag 8]
          (snd (PoolAllocator_new False 32 4 8 4096 (\<lambda>a. 0))))
   \<and> unat (m_FreeCount (pool_run False
          [Pool_Allocate 32 NoTag 8, Pool_Allocate 32 NoTag 8, Pool_Allocate 32 NoTag 8,
           Pool_Allocate 32 NoTag 8]
          (snd (PoolAllocator_new False 32 4 8 4096 (\<lambda>a. 0))))) = 0"
proof -
  let ?cs = "[Pool_Allocate 32 NoTag 8, Pool_Allocate 32 NoTag 8, Pool_Allocate 32 NoTag 8,
    Pool_Allocate 32 NoTag 8]"
  let ?s0 = "snd (PoolAllocator_new False 32 4 8 4096 (\<lambda>a. 0))"
  have wf: "pool_wf 4096 (AlignUp 32 8) 4"
    by (simp add: pool_wf_def AlignUp_def)
  have fit: "(32 :: size_t) \<le> AlignUp 32 8"
    by (simp add: AlignUp_def)
  have fields: "m_FreeList ?s0 = 4096" "m_ElementSize ?s0 = 32"
    by (simp_all add: PoolAllocator_new_def Let_def)
  note reads = sample_pool_reads [of False "\<lambda>a. 0"]
  have run: "pool_exec False ?cs ?s0 [] = Some (pool_run False ?cs ?s0, [4192, 4160, 4128, 4096])"
    using reads by (simp add: pool_Allocate_def fields Let_def)
  from pool_Allocate_contract [OF wf fit run, of 32 NoTag 8] run show ?thesis
    by simp
qed

section \<open>Reset rebuilds the free list of the constructor\<close>

text \<open>
  The bytes that the loop and the final store write do not depend on what memory held
  before: on every address inside a link word, two runs from different memories agree.
  This needs no assumption on the pool's parameters.
\<close>

lemma link_blocks_agree:
  "m1 x = m2 x \<or> (\<exists>j. unat i \<le> j \<and> j < unat (n - 1) \<and> x - slot_addr buf sz j < 8)
   \<Longrightarrow> link_blocks buf sz n i m1 x = link_blocks buf sz n i m2 x"
proof (induction buf sz n i m1 arbitrary: m2 rule: link_blocks.induct)
  case (1 buf sz n i m1)
  show ?case
  proof (cases "i < n - 1")
    case True
    let ?w = "\<lambda>m. write64 (buf + i * sz) (buf + (i + 1) * sz) m"
    have "?w m1 x = ?w m2 x
        \<or> (\<exists>j. unat (i + 1) \<le> j \<and> j < unat (n - 1) \<and> x - slot_addr buf sz j < 8)"
    proof (cases "m1 x = m2 x \<or> x - slot_addr buf sz (unat i) < 8")
      case True
      then have "?w m1 x = ?w m2 x"
        unfolding loop_slot by (rule write64_agree)
      then show ?thesis ..
    next
      case False
      with "1.prems" obtain j where j: "unat i \<le> j" "j < unat (n - 1)"
        "x - slot_addr buf sz j < 8"
        by blast
      with False have "j \<noteq> unat i"
        by auto
      with j(1) \<open>i < n - 1\<close> have "unat (i + 1) \<le> j"
        by (simp add: unat_succ)
      with j(2,3) show ?thesis
        by blast
    qed
    then have "link_blocks buf sz n (i + 1) (?w m1) x = link_blocks buf sz n (i + 1) (?w m2) x"
      by (rule "1.IH" [OF True])
    then show ?thesis
      using True by (simp add: link_blocks.simps [of buf sz n i])
  next
    case False
    then have "\<not> unat i < unat (n - 1)"
      by (simp add: word_less_nat_alt)
    with "1.prems" have "m1 x = m2 x"
      by auto
    with False show ?thesis
      by (simp add: link_blocks.simps [of buf sz n i])
  qed
qed

lemma pool_Reset_same_bytes:
  assumes that: "AlignUp (m_ElementSize s) algn = m_AlignedElementSize s"
    and x: "x - (m_Buffer_P s + (m_ElementCount s - 1) * m_AlignedElementSize s) < 8
    \<or> (\<exists>j < unat (m_ElementCount s - 1).
         x - slot_addr (m_Buffer_P s) (m_AlignedElementSize s) j < 8)"
  shows "heap_P (pool_Reset s) x
    = heap_P (snd (PoolAllocator_new dbg (m_ElementSize s) (m_ElementCount s) algn
        (m_Buffer_P s) m)) x"
proof -
  let ?buf = "m_Buffer_P s" and ?sz = "m_AlignedElementSize s" and ?n = "m_ElementCount s"
  have "write64 (?buf + (?n - 1) * ?sz) 0 (link_blocks ?buf ?sz ?n 0 (heap_P s)) x
      = write64 (?buf + (?n - 1) * ?sz) 0 (link_blocks ?buf ?sz ?n 0 m) x"
  proof (rule write64_agree)
    from x
    show "link_blocks ?buf ?sz ?n 0 (heap_P s) x = link_blocks ?buf ?sz ?n 0 m x
        \<or> x - (?buf + (?n - 1) * ?sz) < 8"
    proof
      assume "x - (?buf + (?n - 1) * ?sz) < 8"
      then show ?thesis ..
    next
      assume "\<exists>j < unat (?n - 1). x - slot_addr ?buf ?sz j < 8"
      then have "link_blocks ?buf ?sz ?n 0 (heap_P s) x = link_blocks ?buf ?sz ?n 0 m x"
        by (intro link_blocks_agree) auto
      then show ?thesis ..
    qed
  qed
  then show ?thesis
    using that by (simp add: pool_Reset_def PoolAllocator_new_def Let_def)
qed

text \<open>
  Let \<open>s\<close> be reached from a pool constructed with well-formed arguments by
  any list of calls whatever (allocations, frees of any pointer, stores to any
  address, resets). After \<open>Reset\<close> the head of the free list is the start of the
  buffer, the free count is \<open>elementCount\<close>, the link word of every slot but the last
  holds the address of the next slot, and the link word of the last slot is null; so
  the free list is the list of all slots in address order, which is also the free list
  the constructor built, and the link word of every slot is what it was after
  construction.
\<close>

lemma pool_Reset_rebuilds_free_list:
  assumes wf: "pool_wf buffer (AlignUp elementSize algn0) elementCount"
    and s0: "s0 = snd (PoolAllocator_new dbg elementSize elementCount algn0 buffer m)"
    and s: "s = pool_run dbg cs s0"
  shows "m_FreeList (pool_Reset s) = buffer
    \<and> m_FreeCount (pool_Reset s) = elementCount
    \<and> (\<forall>j. Suc j < unat elementCount \<longrightarrow>
         read64 (heap_P (pool_Reset s)) (slot_addr buffer (AlignUp elementSize algn0) j)
           = slot_addr buffer (AlignUp elementSize algn0) (Suc j))
    \<and> read64 (heap_P (pool_Reset s))
         (slot_addr buffer (AlignUp elementSize algn0) (unat elementCount - 1)) = 0
    \<and> free_chain (heap_P (pool_Reset s)) (m_FreeList (pool_Reset s))
         (pool_slots buffer (AlignUp elementSize algn0) elementCount)
    \<and> m_FreeList s0 = buffer
    \<and> m_FreeCount s0 = elementCount
    \<and> free_chain (heap_P s0) (m_FreeList s0)
         (pool_slots buffer (AlignUp elementSize algn0) elementCount)
    \<and> (\<forall>j. j < unat elementCount \<longrightarrow>
         read64 (heap_P (pool_Reset s)) (slot_addr buffer (AlignUp elementSize algn0) j)
           = read64 (heap_P s0) (slot_addr buffer (AlignUp elementSize algn0) j))"
proof -
  let ?sz = "AlignUp elementSize algn0"
  from wf have n: "0 < elementCount"
    by (simp add: pool_wf_def)
  have params: "m_Buffer_P s = buffer" "m_ElementCount s = elementCount"
    "m_AlignedElementSize s = ?sz"
    unfolding s s0 by (simp_all add: pool_run_params PoolAllocator_new_def Let_def)
  have reset: "heap_P (pool_Reset s)
      = write64 (buffer + (elementCount - 1) * ?sz) 0
          (link_blocks buffer ?sz elementCount 0 (heap_P s))"
    "m_FreeList (pool_Reset s) = buffer" "m_FreeCount (pool_Reset s) = elementCount"
    by (simp_all add: pool_Reset_def Let_def params)
  have new: "heap_P s0
      = write64 (buffer + (elementCount - 1) * ?sz) 0 (link_blocks buffer ?sz elementCount 0 m)"
    "m_FreeList s0 = buffer" "m_FreeCount s0 = elementCount"
    unfolding s0 by (simp_all add: PoolAllocator_new_def Let_def)
  have next_r: "read64 (heap_P (pool_Reset s)) (slot_addr buffer ?sz j)
      = slot_addr buffer ?sz (Suc j)" if "Suc j < unat elementCount" for j
    unfolding reset using wf by (rule built_read_next) (use that in simp)
  have next_0: "read64 (heap_P s0) (slot_addr buffer ?sz j) = slot_addr buffer ?sz (Suc j)"
    if "Suc j < unat elementCount" for j
    unfolding new using wf by (rule built_read_next) (use that in simp)
  have last_r: "read64 (heap_P (pool_Reset s)) (slot_addr buffer ?sz (unat elementCount - 1)) = 0"
    unfolding reset using n by (rule built_read_last)
  have last_0: "read64 (heap_P s0) (slot_addr buffer ?sz (unat elementCount - 1)) = 0"
    unfolding new using n by (rule built_read_last)
  have same: "read64 (heap_P (pool_Reset s)) (slot_addr buffer ?sz j)
      = read64 (heap_P s0) (slot_addr buffer ?sz j)" if "j < unat elementCount" for j
  proof (cases "Suc j < unat elementCount")
    case True
    then show ?thesis
      by (simp add: next_r next_0)
  next
    case False
    with that have "j = unat elementCount - 1"
      by simp
    then show ?thesis
      by (simp only: last_r last_0)
  qed
  have chain_r: "free_chain (heap_P (pool_Reset s)) (m_FreeList (pool_Reset s))
      (pool_slots buffer ?sz elementCount)"
    unfolding reset using wf by (rule built_chain)
  have chain_0: "free_chain (heap_P s0) (m_FreeList s0) (pool_slots buffer ?sz elementCount)"
    unfolding new using wf by (rule built_chain)
  from reset(2,3) new(2,3) next_r last_r chain_r chain_0 same show ?thesis
    by blast
qed

lemma pool_Reset_scenario:
  "m_FreeList (pool_Reset (pool_run False
      [Pool_Allocate 32 NoTag 8, Pool_Allocate 8 NoTag 8, Pool_Store 4100 255,
       Pool_Free 4128, Pool_Free 4128, Pool_Store 4192 1]
      (snd (PoolAllocator_new False 32 4 8 4096 (\<lambda>a. 0))))) = 4096
   \<and> m_FreeCount (pool_Reset (pool_run False
      [Pool_Allocate 32 NoTag 8, Pool_Allocate 8 NoTag 8, Pool_Store 4100 255,
       Pool_Free 4128, Pool_Free 4128, Pool_Store 4192 1]
      (snd (PoolAllocator_new False 32 4 8 4096 (\<lambda>a. 0))))) = 4
   \<and> read64 (heap_P (pool_Reset (pool_run False
      [Pool_Allocate 32 NoTag 8, Pool_Allocate 8 NoTag 8, Pool_Store 4100 255,
       Pool_Free 4128, Pool_Free 4128, Pool_Store 4192 1]
      (snd (PoolAllocator_new False 32 4 8 4096 (\<lambda>a. 0)))))) 4096 = 4128
   \<and> read64 (heap_P (pool_Reset (pool_run False
      [Pool_Allocate 32 NoTag 8, Pool_Allocate 8 NoTag 8, Pool_Store 4100 255,
       Pool_Free 4128, Pool_Free 4128, Pool_Store 4192 1]
      (snd (PoolAllocator_new False 32 4 8 4096 (\<lambda>a. 0)))))) 4128 = 4160
   \<and> read64 (heap_P (pool_Reset (pool_run False
      [Pool_Allocate 32 NoTag 8, Pool_Allocate 8 NoTag 8, Pool_Store 4100 255,
       Pool_Free 4128, Pool_Free 4128, Pool_Store 4192 1]
      (snd (PoolAllocator_new False 32 4 8 4096 (\<lambda>a. 0)))))) 4160 = 4192
   \<and> read64 (heap_P (pool_Reset (pool_run False
      [Pool_Allocate 32 NoTag 8, Pool_Allocate 8 NoTag 8, Pool_Store 4100 255,
       Pool_Free 4128, Pool_Free 4128, Pool_Store 4192 1]
      (snd (PoolAllocator_new False 32 4 8 4096 (\<lambda>a. 0)))))) 4192 = 0"
proof -
  let ?cs = "[Pool_Allocate 32 NoTag 8, Pool_Allocate 8 NoTag 8, Pool_Store 4100 255,
    Pool_Free 4128, Pool_Free 4128, Pool_Store 4192 1]"
  let ?s0 = "snd (PoolAllocator_new False 32 4 8 4096 (\<lambda>a. 0))"
  have wf: "pool_wf 4096 (AlignUp 32 8) 4"
    by (simp add: pool_wf_def AlignUp_def)
  have sz: "AlignUp 32 8 = 32"
    by (simp add: AlignUp_def)
  note inst = pool_Reset_rebuilds_free_list
    [OF wf refl refl, where dbg = False and m = "\<lambda>a. 0" and cs = ?cs]
  from inst have head: "m_FreeList (pool_Reset (pool_run False ?cs ?s0)) = 4096"
    and count: "m_FreeCount (pool_Reset (pool_run False ?cs ?s0)) = 4"
    and link: "\<And>j. Suc j < 4 \<Longrightarrow>
      read64 (heap_P (pool_Reset (pool_run False ?cs ?s0))) (slot_addr 4096 32 j)
        = slot_addr 4096 32 (Suc j)"
    and last: "read64 (heap_P (pool_Reset (pool_run False ?cs ?s0)))
      (slot_addr 4096 32 (unat (4 :: size_t) - 1)) = 0"
    unfolding sz by simp_all
  from link [of 0] link [of 1] link [of 2] last head count show ?thesis
    by (simp add: slot_addr_def)
qed

section \<open>Slots shorter than a link word\<close>

text \<open>
  The constructor rounds the element size up to the alignment and makes no other check:
  it accepts a pool whose slots are shorter than the \<open>uintptr_t\<close> that links them. In a
  pool of three 4-byte elements at address 4096 the slots are 4096, 4100 and 4104, the
  8-byte link words overlap, and the last store ends beyond the 12 bytes of the buffer:
  the store into the second slot overwrites the upper half of the first slot's link
  word, which then holds \<open>0x100800001004\<close> and not the address 4100 of the second slot.
\<close>

lemma small_pool_loop:
  "link_blocks 4096 4 3 0 m = write64 4100 4104 (write64 4096 4100 m)"
  by (simp add: link_blocks.simps [of _ _ _ 0] link_blocks.simps [of _ _ _ 1]
      link_blocks.simps [of _ _ _ 2])

lemma small_pool_heap:
  "heap_P (snd (PoolAllocator_new dbg 4 3 4 4096 m))
      = write64 4104 0 (write64 4100 4104 (write64 4096 4100 m))"
  by (simp add: PoolAllocator_new_def AlignUp_def Let_def small_pool_loop)

lemma small_pool_read:
  "read64 (write64 4104 0 (write64 4100 4104 (write64 4096 4100 m))) 4096 = 0x100800001004"
  by (simp add: read64_def write64_def)

lemma small_pool_read_far:
  "read64 (write64 4104 0 (write64 4100 4104 (write64 4096 4100 (\<lambda>a. 0)))) 0x100800001004 = 0"
  by (simp add: read64_def write64_def)

lemma small_pool_slots: "pool_slots 4096 (AlignUp 4 4) 3 = [4096, 4100, 4104]"
  by (simp add: pool_slots_def slot_addr_def AlignUp_def upt_rec)

lemma pool_small_slots_overlap:
  "read64 (heap_P (snd (PoolAllocator_new dbg 4 3 4 4096 m))) 4096 = 0x100800001004"
  unfolding small_pool_heap by (rule small_pool_read)

text \<open>
  Claim C7 holds for the pools whose slots hold a link word (lemmas
  \<open>pool_Allocate_contract\<close> and \<open>pool_Allocate_counts\<close>), and fails for the pool of three
  4-byte elements at address 4096, whatever memory held before. The first request is
  served with the slot 4096, and the head of the free list becomes the overlapped link
  word; the second request is served with \<open>0x100800001004\<close>, which is not a slot of the
  pool, although the client kept the contract, and the next head is loaded from that
  address, outside the buffer. When memory is zero there, the free list is then empty:
  the third request returns null after two allocations, with a free count of 1. The
  counters after the two requests are 2 allocations and 8 bytes.
\<close>

theorem pool_Allocate_small_slots:
  "pool_slots 4096 (AlignUp 4 4) 3 = [4096, 4100, 4104]
   \<and> fst (snd (pool_Allocate dbg 4 NoTag 4 (snd (PoolAllocator_new dbg 4 3 4 4096 m)))) = 4096
   \<and> fst (snd (pool_Allocate dbg 4 NoTag 4
        (pool_run dbg [Pool_Allocate 4 NoTag 4] (snd (PoolAllocator_new dbg 4 3 4 4096 m)))))
       = 0x100800001004
   \<and> 0x100800001004 \<notin> set (pool_slots 4096 (AlignUp 4 4) 3)
   \<and> map_option snd (pool_exec dbg [Pool_Allocate 4 NoTag 4, Pool_Allocate 4 NoTag 4]
        (snd (PoolAllocator_new dbg 4 3 4 4096 (\<lambda>a. 0))) []) = Some [0x100800001004, 4096]
   \<and> fst (snd (pool_Allocate dbg 4 NoTag 4
        (pool_run dbg [Pool_Allocate 4 NoTag 4, Pool_Allocate 4 NoTag 4]
           (snd (PoolAllocator_new dbg 4 3 4 4096 (\<lambda>a. 0)))))) = 0
   \<and> m_FreeCount (pool_run dbg [Pool_Allocate 4 NoTag 4, Pool_Allocate 4 NoTag 4]
        (snd (PoolAllocator_new dbg 4 3 4 4096 (\<lambda>a. 0)))) = 1
   \<and> allocationCount (m_Stats_P (pool_run dbg [Pool_Allocate 4 NoTag 4, Pool_Allocate 4 NoTag 4]
        (snd (PoolAllocator_new dbg 4 3 4 4096 (\<lambda>a. 0))))) = 2
   \<and> totalAllocated (m_Stats_P (pool_run dbg [Pool_Allocate 4 NoTag 4, Pool_Allocate 4 NoTag 4]
        (snd (PoolAllocator_new dbg 4 3 4 4096 (\<lambda>a. 0))))) = 8"
proof -
  let ?s0 = "\<lambda>m. snd (PoolAllocator_new dbg 4 3 4 4096 m)"
  have fields: "m_FreeList (?s0 m) = 4096" "m_ElementSize (?s0 m) = 4"
    "m_FreeCount (?s0 m) = 3" "m_Stats_P (?s0 m) = zero_stats" for m
    by (simp_all add: PoolAllocator_new_def Let_def)
  have first: "pool_Allocate dbg 4 NoTag 4 (?s0 m)
      = ([], 4096, (?s0 m)\<lparr>m_FreeList := 0x100800001004, m_FreeCount := 2,
           m_Stats_P := stats_add 4 zero_stats\<rparr>)" for m
    by (simp add: pool_Allocate_def fields small_pool_heap small_pool_read)
  have second: "pool_Allocate dbg 4 NoTag 4
        ((?s0 m)\<lparr>m_FreeList := 0x100800001004, m_FreeCount := 2,
           m_Stats_P := stats_add 4 zero_stats\<rparr>)
      = ([], 0x100800001004,
         (?s0 m)\<lparr>m_FreeList := read64 (heap_P (?s0 m)) 0x100800001004, m_FreeCount := 1,
           m_Stats_P := stats_add 4 (stats_add 4 zero_stats)\<rparr>)" for m
    by (simp add: pool_Allocate_def fields)
  have far: "read64 (heap_P (?s0 (\<lambda>a. 0))) 0x100800001004 = 0"
    by (simp only: small_pool_heap small_pool_read_far)
  have stats: "allocationCount (stats_add 4 (stats_add 4 zero_stats)) = 2"
    "totalAllocated (stats_add 4 (stats_add 4 zero_stats)) = 8"
    by (simp_all add: stats_add_def zero_stats_def Let_def)
  have third: "fst (snd (pool_Allocate dbg 4 NoTag 4
        ((?s0 (\<lambda>a. 0))\<lparr>m_FreeList := 0, m_FreeCount := 1,
           m_Stats_P := stats_add 4 (stats_add 4 zero_stats)\<rparr>))) = 0"
    by (simp add: pool_Allocate_def fields)
  have notin: "(0x100800001004 :: addr) \<notin> set (pool_slots 4096 (AlignUp 4 4) 3)"
    by (simp add: small_pool_slots)
  show ?thesis
    using notin third stats by (simp add: small_pool_slots first second far Let_def)
qed

text \<open>
  Claim C9 holds for the pools whose slots hold a link word (lemma
  \<open>pool_Reset_rebuilds_free_list\<close>; the bytes written are those of the constructor for
  every pool, lemma \<open>pool_Reset_same_bytes\<close>), and fails for the pool of three 4-byte
  elements at address 4096: after any calls, \<open>Reset\<close> sets the head to 4096 and the free
  count to 3, but the link word of the first slot is \<open>0x100800001004\<close>, as it was after
  construction, and not the address 4100 of the second slot; the free list is not the
  chain of the three slots.
\<close>

theorem pool_Reset_small_slots:
  "slot_addr 4096 (AlignUp 4 4) 0 = 4096
   \<and> slot_addr 4096 (AlignUp 4 4) 1 = 4100
   \<and> m_FreeList (pool_Reset (pool_run dbg cs (snd (PoolAllocator_new dbg 4 3 4 4096 m)))) = 4096
   \<and> m_FreeCount (pool_Reset (pool_run dbg cs (snd (PoolAllocator_new dbg 4 3 4 4096 m)))) = 3
   \<and> read64 (heap_P (pool_Reset (pool_run dbg cs (snd (PoolAllocator_new dbg 4 3 4 4096 m)))))
        (slot_addr 4096 (AlignUp 4 4) 0) = 0x100800001004
   \<and> read64 (heap_P (snd (PoolAllocator_new dbg 4 3 4 4096 m)))
        (slot_addr 4096 (AlignUp 4 4) 0) = 0x100800001004
   \<and> \<not> free_chain (heap_P (pool_Reset (pool_run dbg cs (snd (PoolAllocator_new dbg 4 3 4 4096 m)))))
        (m_FreeList (pool_Reset (pool_run dbg cs (snd (PoolAllocator_new dbg 4 3 4 4096 m)))))
        (pool_slots 4096 (AlignUp 4 4) 3)"
proof -
  let ?s = "pool_run dbg cs (snd (PoolAllocator_new dbg 4 3 4 4096 m))"
  have params: "m_Buffer_P ?s = 4096" "m_ElementCount ?s = 3" "m_AlignedElementSize ?s = 4"
    by (simp_all add: pool_run_params PoolAllocator_new_def AlignUp_def Let_def)
  have heap: "heap_P (pool_Reset ?s)
      = write64 4104 0 (write64 4100 4104 (write64 4096 4100 (heap_P ?s)))"
    by (simp add: pool_Reset_def params Let_def small_pool_loop)
  have head: "m_FreeList (pool_Reset ?s) = 4096" "m_FreeCount (pool_Reset ?s) = 3"
    by (simp_all add: pool_Reset_def params Let_def)
  have slots: "slot_addr 4096 (AlignUp 4 4) 0 = 4096" "slot_addr 4096 (AlignUp 4 4) 1 = 4100"
    by (simp_all add: slot_addr_def AlignUp_def)
  have r: "read64 (heap_P (pool_Reset ?s)) 4096 = 0x100800001004"
    unfolding heap by (rule small_pool_read)
  have c: "read64 (heap_P (snd (PoolAllocator_new dbg 4 3 4 4096 m))) 4096 = 0x100800001004"
    unfolding small_pool_heap by (rule small_pool_read)
  have chain: "\<not> free_chain (heap_P (pool_Reset ?s)) (m_FreeList (pool_Reset ?s))
      (pool_slots 4096 (AlignUp 4 4) 3)"
    by (simp add: small_pool_slots head r)
  from slots head r c chain show ?thesis
    by simp
qed

end
